theory Spec2Isabelle
  imports Complex_Main "HOL-Library.AList"
begin

section \<open>Values, errors and library functions\<close>

text \<open>
  The module \<^verbatim>\<open>binary_cazyme_noncazyme_classification.py\<close> evaluates the binary
  CAZyme / non-CAZyme predictions of six tools. Python exceptions are values of
  \<open>py_error\<close>; a function that may raise returns \<open>py_error + 'a\<close>.
  A \<^verbatim>\<open>KeyError\<close> carries the key that was not found, as Python's does.
\<close>

datatype py_error = KeyError string | IndexError | ValueError

text \<open>
  Statistic values are numpy / Python floats. They are modelled exactly, as rationals,
  together with the two special values an integer division by zero produces in numpy
  (a warning is printed, no exception is raised): \<^verbatim>\<open>0 / 0\<close> is \<^verbatim>\<open>nan\<close> and
  \<^verbatim>\<open>a / 0\<close> is \<^verbatim>\<open>inf\<close> for positive \<^verbatim>\<open>a\<close>. Rounding is not modelled.
\<close>

datatype npfloat = Num rat | NaN | PosInf

definition np_div :: "nat \<Rightarrow> nat \<Rightarrow> npfloat" where
  "np_div a b =
     (if b = 0 then (if a = 0 then NaN else PosInf)
      else Num (of_nat a / of_nat b))"

text \<open>The six tool columns, in the order the source writes them.\<close>

definition tools :: "string list" where
  "tools = [''dbCAN'', ''HMMER'', ''Hotpep'', ''DIAMOND'', ''CUPP'', ''eCAMI'']"

subsection \<open>sklearn.metrics.confusion_matrix\<close>

text \<open>
  \<^verbatim>\<open>confusion_matrix(y_true, y_pred)\<close> is called without \<^verbatim>\<open>labels\<close>: the labels are
  the sorted distinct values occurring in \<^verbatim>\<open>y_true\<close> or \<^verbatim>\<open>y_pred\<close>, and the result
  is a square matrix with one row and one column per label; entry \<open>(i, j)\<close> counts the
  samples whose true label is the \<open>i\<close>-th and whose predicted label is the \<open>j\<close>-th.
  Inputs of different lengths are refused with \<^verbatim>\<open>ValueError\<close>.
\<close>

definition unique_labels :: "int list \<Rightarrow> int list \<Rightarrow> int list" where
  "unique_labels y_true y_pred = sort (remdups (y_true @ y_pred))"

definition count_pairs :: "int list \<Rightarrow> int list \<Rightarrow> int \<Rightarrow> int \<Rightarrow> nat" where
  "count_pairs y_true y_pred t p =
     length (filter (\<lambda>(a, b). a = t \<and> b = p) (zip y_true y_pred))"

definition confusion_matrix :: "int list \<Rightarrow> int list \<Rightarrow> py_error + nat list list" where
  "confusion_matrix y_true y_pred =
     (if length y_true \<noteq> length y_pred then Inl ValueError
      else let labels = unique_labels y_true y_pred
           in Inr (map (\<lambda>t. map (\<lambda>p. count_pairs y_true y_pred t p) labels) labels))"

text \<open>\<^verbatim>\<open>cm[i][j]\<close>: an index outside the matrix raises \<^verbatim>\<open>IndexError\<close>.\<close>

definition cm_get :: "nat list list \<Rightarrow> nat \<Rightarrow> nat \<Rightarrow> py_error + nat" where
  "cm_get cm i j =
     (if i < length cm then
        (if j < length (cm ! i) then Inr (cm ! i ! j) else Inl IndexError)
      else Inl IndexError)"

section \<open>Collecting the predictions of one tool\<close>

text \<open>Sequencing of computations that may raise: the first error ends the computation.\<close>

definition bind_err :: "py_error + 'a \<Rightarrow> ('a \<Rightarrow> py_error + 'b) \<Rightarrow> py_error + 'b" where
  "bind_err m f = (case m of Inl e \<Rightarrow> Inl e | Inr x \<Rightarrow> f x)"

text \<open>\<^verbatim>\<open>xs[i]\<close> for a non-negative index: \<^verbatim>\<open>IndexError\<close> beyond the end.\<close>

definition py_index :: "'a list \<Rightarrow> nat \<Rightarrow> py_error + 'a" where
  "py_index xs i = (if i < length xs then Inr (xs ! i) else Inl IndexError)"

text \<open>
  \<^verbatim>\<open>s.split(sep)\<close> for a one-character separator: the pieces between the
  occurrences of the separator, empty pieces included; the result is never empty.
\<close>

fun py_split :: "char \<Rightarrow> string \<Rightarrow> string list" where
  "py_split sep [] = [[]]"
| "py_split sep (c # cs) =
     (if c = sep then [] # py_split sep cs
      else (case py_split sep cs of
              [] \<Rightarrow> [[c]]
            | w # ws \<Rightarrow> (c # w) # ws))"

text \<open>
  Of a \<^verbatim>\<open>CazymeProteinPrediction\<close> instance the module reads two attributes.
  An entry of the classification list is the Python list
  \<^verbatim>\<open>[accession, prediction_tool, cazyme_classification]\<close>.
\<close>

record prediction =
  protein_accession :: string
  cazyme_classification :: int

type_synonym entry = "string \<times> string \<times> int"

text \<open>The two loops of \<^verbatim>\<open>get_prediction_classifications\<close>; each appends one entry per prediction.\<close>

fun append_split_accessions :: "prediction list \<Rightarrow> string \<Rightarrow> entry list \<Rightarrow> py_error + entry list" where
  "append_split_accessions [] prediction_tool classifications = Inr classifications"
| "append_split_accessions (p # ps) prediction_tool classifications =
     bind_err (py_index (py_split CHR '' '' (protein_accession p)) 0) (\<lambda>accession.
       append_split_accessions ps prediction_tool
         (classifications @ [(accession, prediction_tool, cazyme_classification p)]))"

fun append_accessions :: "prediction list \<Rightarrow> string \<Rightarrow> entry list \<Rightarrow> py_error + entry list" where
  "append_accessions [] prediction_tool classifications = Inr classifications"
| "append_accessions (p # ps) prediction_tool classifications =
     append_accessions ps prediction_tool
       (classifications @ [(protein_accession p, prediction_tool, cazyme_classification p)])"

definition get_prediction_classifications ::
  "prediction list \<Rightarrow> string \<Rightarrow> entry list \<Rightarrow> py_error + entry list" where
  "get_prediction_classifications tool_predictions prediction_tool classifications =
     (if prediction_tool = ''eCAMI'' \<or> prediction_tool = ''CUPP''
      then append_split_accessions tool_predictions prediction_tool classifications
      else append_accessions tool_predictions prediction_tool classifications)"

section \<open>Building the classification matrix\<close>

text \<open>
  A Python dictionary keeps its keys in insertion order, and the rows of the matrix
  are written in that order: the dictionary
  \<^verbatim>\<open>{protein_accession : {prediction_tool : [classifications]}}\<close> is an association
  list with distinct keys. \<open>AList.update\<close> replaces the value of a key in place and
  appends a new key at the end, as an assignment to a dictionary does. A read of a
  missing key raises \<^verbatim>\<open>KeyError\<close> with that key.
\<close>

type_synonym tool_dict = "(string \<times> int list) list"
type_synonym classification_dict = "(string \<times> tool_dict) list"

definition dict_get :: "(string \<times> 'v) list \<Rightarrow> string \<Rightarrow> py_error + 'v" where
  "dict_get d k = (case map_of d k of None \<Rightarrow> Inl (KeyError k) | Some v \<Rightarrow> Inr v)"

text \<open>The body of the first loop of \<^verbatim>\<open>build_classification_df\<close>, with its two nested \<^verbatim>\<open>try\<close> blocks.\<close>

definition add_classification :: "classification_dict \<Rightarrow> entry \<Rightarrow> classification_dict" where
  "add_classification classification_dict =
     (\<lambda>(protein_accession, prediciton_tool, cazyme_classification).
        (case map_of classification_dict protein_accession of
           Some inner \<Rightarrow>
             (case map_of inner prediciton_tool of
                Some l \<Rightarrow>
                  AList.update protein_accession
                    (AList.update prediciton_tool (l @ [cazyme_classification]) inner)
                    classification_dict
              | None \<Rightarrow>
                  AList.update protein_accession
                    (AList.update prediciton_tool [cazyme_classification] inner)
                    classification_dict)
         | None \<Rightarrow>
             AList.update protein_accession
               (AList.update prediciton_tool [cazyme_classification] [])
               classification_dict))"

text \<open>
  The second loop: for every accession, one row per index into the accession's dbCAN
  list, holding the classification at that index of each tool's list. The reads
  \<^verbatim>\<open>classification_dict[protein_accession][tool][i]\<close> happen in column order, and the
  first one that fails ends the build.
\<close>

fun tool_cells :: "tool_dict \<Rightarrow> nat \<Rightarrow> string list \<Rightarrow> py_error + int list" where
  "tool_cells inner i [] = Inr []"
| "tool_cells inner i (tool # ts) =
     bind_err (dict_get inner tool) (\<lambda>l.
     bind_err (py_index l i) (\<lambda>v.
     bind_err (tool_cells inner i ts) (\<lambda>vs. Inr (v # vs))))"

fun accession_rows :: "string \<Rightarrow> tool_dict \<Rightarrow> nat list \<Rightarrow> py_error + (string \<times> int list) list" where
  "accession_rows accession inner [] = Inr []"
| "accession_rows accession inner (i # is) =
     bind_err (tool_cells inner i tools) (\<lambda>new_data.
     bind_err (accession_rows accession inner is) (\<lambda>rows.
       Inr ((accession, new_data) # rows)))"

fun build_rows :: "classification_dict \<Rightarrow> py_error + (string \<times> int list) list" where
  "build_rows [] = Inr []"
| "build_rows ((accession, inner) # rest) =
     bind_err (dict_get inner ''dbCAN'') (\<lambda>l.
     bind_err (accession_rows accession inner [0..<length l]) (\<lambda>rows.
     bind_err (build_rows rest) (\<lambda>more. Inr (rows @ more))))"

text \<open>
  A pandas data frame: the row labels and the named columns, in order. The frame built
  here has the accession of each row as its label and one column per tool.
\<close>

record dataframe =
  index :: "string list"
  columns :: "(string \<times> int list) list"

definition build_classification_df :: "entry list \<Rightarrow> py_error + dataframe" where
  "build_classification_df classifications =
     bind_err (build_rows (foldl add_classification [] classifications)) (\<lambda>data.
       Inr \<lparr>index = map fst data,
            columns = map (\<lambda>j. (tools ! j, map (\<lambda>r. snd r ! j) data)) [0..<length tools]\<rparr>)"

section \<open>Ground truth\<close>

text \<open>
  \<^verbatim>\<open>retrieve_ground_truths\<close>: one value per row label, 1 when the label is a key of
  \<^verbatim>\<open>cazy_dict\<close> and 0 when the read raises \<^verbatim>\<open>KeyError\<close>; the list becomes the column
  \<^verbatim>\<open>CAZy\<close> (replaced when present, appended otherwise).
\<close>

definition retrieve_ground_truths :: "dataframe \<Rightarrow> (string \<rightharpoonup> 'v) \<Rightarrow> dataframe" where
  "retrieve_ground_truths classifications_df cazy_dict =
     (let cazy_annotation =
            map (\<lambda>protein_accession.
                   case cazy_dict protein_accession of Some v \<Rightarrow> 1 | None \<Rightarrow> 0)
                (index classifications_df)
      in classifications_df\<lparr>columns :=
           AList.update ''CAZy'' cazy_annotation (columns classifications_df)\<rparr>)"

section \<open>Accuracy of one sample\<close>

text \<open>
  \<^verbatim>\<open>calc_acc(y_true, y_pred)\<close>: the four cells are read in the order \<^verbatim>\<open>tn\<close>,
  \<^verbatim>\<open>fn\<close>, \<^verbatim>\<open>tp\<close>, \<^verbatim>\<open>fp\<close>, and the first read that is out of range raises.
\<close>

definition calc_acc :: "int list \<Rightarrow> int list \<Rightarrow> py_error + npfloat" where
  "calc_acc y_true y_pred =
     bind_err (confusion_matrix y_true y_pred) (\<lambda>cm.
     bind_err (cm_get cm 0 0) (\<lambda>tn.
     bind_err (cm_get cm 1 0) (\<lambda>fn.
     bind_err (cm_get cm 1 1) (\<lambda>tp.
     bind_err (cm_get cm 0 1) (\<lambda>fp.
       Inr (np_div (tp + tn) (tp + fp + fn + tn)))))))"

section \<open>The binary evaluator\<close>

subsection \<open>sklearn's precision, recall and F1 scores\<close>

text \<open>
  \<^verbatim>\<open>recall_score\<close>, \<^verbatim>\<open>precision_score\<close> and \<^verbatim>\<open>f1_score\<close> are called with their
  defaults: the positive label is 1 and the average is \<^verbatim>\<open>binary\<close>. Targets with more
  than two labels, or with two labels neither of which is 1, are refused with
  \<^verbatim>\<open>ValueError\<close>. A ratio whose denominator is zero is set to 0.0 (with a warning), and
  so is the F-score when precision and recall are both zero.
\<close>

definition check_binary_targets :: "int list \<Rightarrow> int list \<Rightarrow> py_error + unit" where
  "check_binary_targets y_true y_pred =
     (if length y_true \<noteq> length y_pred then Inl ValueError
      else let present_labels = unique_labels y_true y_pred
           in if length present_labels > 2 then Inl ValueError
              else if 1 \<notin> set present_labels \<and> length present_labels \<ge> 2 then Inl ValueError
              else Inr ())"

definition tp_sum :: "int list \<Rightarrow> int list \<Rightarrow> nat" where
  "tp_sum y_true y_pred = count_pairs y_true y_pred 1 1"

definition predicted_sum :: "int list \<Rightarrow> nat" where
  "predicted_sum y_pred = length (filter (\<lambda>p. p = 1) y_pred)"

definition true_sum :: "int list \<Rightarrow> nat" where
  "true_sum y_true = length (filter (\<lambda>t. t = 1) y_true)"

definition prf_divide :: "nat \<Rightarrow> nat \<Rightarrow> rat" where
  "prf_divide numerator denominator =
     (if denominator = 0 then 0 else of_nat numerator / of_nat denominator)"

definition precision_value :: "int list \<Rightarrow> int list \<Rightarrow> rat" where
  "precision_value y_true y_pred = prf_divide (tp_sum y_true y_pred) (predicted_sum y_pred)"

definition recall_value :: "int list \<Rightarrow> int list \<Rightarrow> rat" where
  "recall_value y_true y_pred = prf_divide (tp_sum y_true y_pred) (true_sum y_true)"

definition f1_value :: "int list \<Rightarrow> int list \<Rightarrow> rat" where
  "f1_value y_true y_pred =
     (let precision = precision_value y_true y_pred;
          recall = recall_value y_true y_pred;
          denom = precision + recall
      in if denom = 0 then 0 else 2 * precision * recall / denom)"

definition recall_score :: "int list \<Rightarrow> int list \<Rightarrow> py_error + npfloat" where
  "recall_score y_true y_pred =
     bind_err (check_binary_targets y_true y_pred) (\<lambda>u. Inr (Num (recall_value y_true y_pred)))"

definition precision_score :: "int list \<Rightarrow> int list \<Rightarrow> py_error + npfloat" where
  "precision_score y_true y_pred =
     bind_err (check_binary_targets y_true y_pred) (\<lambda>u. Inr (Num (precision_value y_true y_pred)))"

definition f1_score :: "int list \<Rightarrow> int list \<Rightarrow> py_error + npfloat" where
  "f1_score y_true y_pred =
     bind_err (check_binary_targets y_true y_pred) (\<lambda>u. Inr (Num (f1_value y_true y_pred)))"

subsection \<open>evaluate\_binary\_classification\<close>

text \<open>
  A statistic record is the Python list \<^verbatim>\<open>[stat, genome, tool, value]\<close>. The body of
  the loop over the tools reads the tool's column, reads the four cells of the
  confusion matrix, and appends five records.
\<close>

type_synonym stat_record = "string \<times> string \<times> string \<times> npfloat"

definition tool_statistics ::
  "dataframe \<Rightarrow> string \<Rightarrow> int list \<Rightarrow> string \<Rightarrow> py_error + stat_record list" where
  "tool_statistics classifications_df genomic_accession y_true tool =
     bind_err (dict_get (columns classifications_df) tool) (\<lambda>y_pred.
     bind_err (confusion_matrix y_true y_pred) (\<lambda>cm.
     bind_err (cm_get cm 0 0) (\<lambda>tn.
     bind_err (cm_get cm 1 0) (\<lambda>fn.
     bind_err (cm_get cm 1 1) (\<lambda>tp.
     bind_err (cm_get cm 0 1) (\<lambda>fp.
     bind_err (Inr (np_div tn (tn + fp))) (\<lambda>specificity_result.
     bind_err (recall_score y_true y_pred) (\<lambda>recall_result.
     bind_err (precision_score y_true y_pred) (\<lambda>precision_result.
     bind_err (f1_score y_true y_pred) (\<lambda>f1_result.
     bind_err (Inr (np_div (tp + tn) (tp + fp + fn + tn))) (\<lambda>accuracy.
       Inr [(''Specificity'', genomic_accession, tool, specificity_result),
            (''Recall'', genomic_accession, tool, recall_result),
            (''Precision'', genomic_accession, tool, precision_result),
            (''F1-score'', genomic_accession, tool, f1_result),
            (''Accuracy'', genomic_accession, tool, accuracy)])))))))))))"

fun evaluate_tools ::
  "dataframe \<Rightarrow> string \<Rightarrow> int list \<Rightarrow> string list \<Rightarrow> py_error + stat_record list" where
  "evaluate_tools classifications_df genomic_accession y_true [] = Inr []"
| "evaluate_tools classifications_df genomic_accession y_true (tool # ts) =
     bind_err (tool_statistics classifications_df genomic_accession y_true tool) (\<lambda>records.
     bind_err (evaluate_tools classifications_df genomic_accession y_true ts) (\<lambda>rest.
       Inr (records @ rest)))"

definition evaluate_binary_classification ::
  "dataframe \<Rightarrow> string \<Rightarrow> py_error + stat_record list" where
  "evaluate_binary_classification classifications_df genomic_accession =
     bind_err (dict_get (columns classifications_df) ''CAZy'') (\<lambda>y_true.
       evaluate_tools classifications_df genomic_accession y_true tools)"

section \<open>Bootstrap resampling\<close>

text \<open>
  The random generators (Python's \<^verbatim>\<open>random\<close> and numpy's global one) are explicit
  state: a source of raw numbers and the position of the next one. A draw below \<open>n\<close>
  reduces the next raw number modulo \<open>n\<close>, so every sequence of draws is the behaviour
  of some source.
\<close>

record rng =
  source :: "nat \<Rightarrow> nat"
  position :: nat

definition randbelow :: "rng \<Rightarrow> nat \<Rightarrow> nat \<times> rng" where
  "randbelow g n = (source g (position g) mod n, g\<lparr>position := Suc (position g)\<rparr>)"

text \<open>numpy's \<^verbatim>\<open>randint(0, n, size=(m,))\<close>: \<open>m\<close> draws below \<open>n\<close>.\<close>

fun randint :: "rng \<Rightarrow> nat \<Rightarrow> nat \<Rightarrow> nat list \<times> rng" where
  "randint g n 0 = ([], g)"
| "randint g n (Suc m) =
     (case randbelow g n of (i, g') \<Rightarrow>
      case randint g' n m of (indices, g'') \<Rightarrow> (i # indices, g''))"

text \<open>
  \<^verbatim>\<open>sklearn.utils.resample(df_array)\<close> with its defaults (with replacement, as many
  rows as the array has): the rows at freshly drawn indices.
\<close>

definition resample :: "rng \<Rightarrow> 'a list \<Rightarrow> 'a list \<times> rng" where
  "resample g df_array =
     (case randint g (length df_array) (length df_array) of
        (indices, g') \<Rightarrow> (map (\<lambda>i. df_array ! i) indices, g'))"

text \<open>
  \<^verbatim>\<open>bootstrap_acc(df, n)\<close>: a row of the two-column array is (prediction, ground
  truth); \<^verbatim>\<open>range(n)\<close> is empty for \<open>n \<le> 0\<close>.
\<close>

fun bootstrap_loop :: "rng \<Rightarrow> (int \<times> int) list \<Rightarrow> nat \<Rightarrow> py_error + npfloat list \<times> rng" where
  "bootstrap_loop g df_array 0 = Inr ([], g)"
| "bootstrap_loop g df_array (Suc n) =
     (case resample g df_array of (sample, g') \<Rightarrow>
        bind_err (calc_acc (map snd sample) (map fst sample)) (\<lambda>acc.
        bind_err (bootstrap_loop g' df_array n) (\<lambda>(bootstraps, g'').
          Inr (acc # bootstraps, g''))))"

definition bootstrap_acc :: "rng \<Rightarrow> (int \<times> int) list \<Rightarrow> int \<Rightarrow> py_error + npfloat list \<times> rng" where
  "bootstrap_acc g df_array n = bootstrap_loop g df_array (nat n)"

text \<open>
  \<^verbatim>\<open>random.sample(population, k)\<close> raises \<^verbatim>\<open>ValueError\<close> unless \<open>0 \<le> k \<le> len\<close>, and
  otherwise selects \<open>k\<close> elements from a pool: each draw takes an element of the pool
  and moves the pool's last element into its place.
\<close>

fun sample_pool :: "rng \<Rightarrow> 'a list \<Rightarrow> nat \<Rightarrow> 'a list \<times> rng" where
  "sample_pool g pool 0 = ([], g)"
| "sample_pool g pool (Suc k) =
     (case randbelow g (length pool) of (j, g') \<Rightarrow>
      case sample_pool g' (butlast (pool[j := last pool])) k of
        (result, g'') \<Rightarrow> (pool ! j # result, g''))"

definition random_sample :: "rng \<Rightarrow> 'a list \<Rightarrow> int \<Rightarrow> py_error + 'a list" where
  "random_sample g population k =
     (if 0 \<le> k \<and> k \<le> int (length population)
      then Inr (fst (sample_pool g population (nat k)))
      else Inl ValueError)"

text \<open>
  \<^verbatim>\<open>ClassificationDF\<close>: a classification matrix with the identifier of its test set.
  A bootstrap result is the Python list
  \<^verbatim>\<open>[genome_id, tool, bs_number, result]\<close>; the list of all of them is what
  \<^verbatim>\<open>bootstrap_binary_classifications\<close> writes to its CSV file.
\<close>

record classification_df =
  genome_id :: string
  df :: dataframe

type_synonym bootstrap_result = "string \<times> string \<times> nat \<times> npfloat"

fun bootstrap_dfs ::
  "rng \<Rightarrow> string \<Rightarrow> int \<Rightarrow> classification_df list \<Rightarrow> py_error + bootstrap_result list \<times> rng" where
  "bootstrap_dfs g tool n [] = Inr ([], g)"
| "bootstrap_dfs g tool n (d # ds) =
     bind_err (dict_get (columns (df d)) tool) (\<lambda>predicted.
     bind_err (dict_get (columns (df d)) ''CAZy'') (\<lambda>truth.
     bind_err (bootstrap_acc g (zip predicted truth) n) (\<lambda>(bs_acc, g').
     bind_err (bootstrap_dfs g' tool n ds) (\<lambda>(more, g'').
       Inr (map (\<lambda>(bs_number, result). (genome_id d, tool, bs_number, result))
                (zip [1..<Suc (length bs_acc)] bs_acc) @ more, g'')))))"

fun bootstrap_tools ::
  "rng \<Rightarrow> int \<Rightarrow> classification_df list \<Rightarrow> string list \<Rightarrow> py_error + bootstrap_result list \<times> rng" where
  "bootstrap_tools g n binary_dfs [] = Inr ([], g)"
| "bootstrap_tools g n binary_dfs (tool # ts) =
     bind_err (bootstrap_dfs g tool n binary_dfs) (\<lambda>(results, g').
     bind_err (bootstrap_tools g' n binary_dfs ts) (\<lambda>(more, g'').
       Inr (results @ more, g'')))"

definition bootstrap_binary_classifications ::
  "rng \<Rightarrow> rng \<Rightarrow> classification_df list \<Rightarrow> int \<Rightarrow> int \<Rightarrow> py_error + bootstrap_result list" where
  "bootstrap_binary_classifications py_random np_random all_binary_dfs bs_sample_size bs_resampling =
     bind_err (random_sample py_random all_binary_dfs bs_sample_size) (\<lambda>binary_dfs.
     bind_err (bootstrap_tools np_random bs_resampling binary_dfs tools) (\<lambda>(bootstrap_results, g).
       Inr bootstrap_results))"

section \<open>Notions used to state the properties\<close>

text \<open>
  The classifications a tool reported for an accession, in input order, and the
  accessions of an input list in order of first occurrence.
\<close>

definition occurrences :: "entry list \<Rightarrow> string \<Rightarrow> string \<Rightarrow> int list" where
  "occurrences classifications accession tool =
     map (\<lambda>(a, t, c). c) (filter (\<lambda>(a, t, c). a = accession \<and> t = tool) classifications)"

definition accessions :: "entry list \<Rightarrow> string list" where
  "accessions classifications = rev (remdups (rev (map fst classifications)))"

text \<open>
  An input list is aligned when, for every accession in it, dbCAN reported at least
  one classification and every tool reported at least as many as dbCAN.
\<close>

definition aligned :: "entry list \<Rightarrow> bool" where
  "aligned classifications \<longleftrightarrow>
     (\<forall>a\<in>set (accessions classifications).
        occurrences classifications a ''dbCAN'' \<noteq> []
        \<and> (\<forall>t\<in>set tools. length (occurrences classifications a ''dbCAN'')
                              \<le> length (occurrences classifications a t)))"

text \<open>The list stored in the dictionary for an accession and a tool, if any.\<close>

definition cell :: "classification_dict \<Rightarrow> string \<Rightarrow> string \<Rightarrow> int list option" where
  "cell d accession tool =
     (case map_of d accession of None \<Rightarrow> None | Some inner \<Rightarrow> map_of inner tool)"

text \<open>
  The cells of the 2x2 confusion matrix of a tool against the ground truth, the
  positive class being 1 (is a CAZyme).
\<close>

definition TP :: "int list \<Rightarrow> int list \<Rightarrow> nat" where
  "TP y_true y_pred = count_pairs y_true y_pred 1 1"

definition FP :: "int list \<Rightarrow> int list \<Rightarrow> nat" where
  "FP y_true y_pred = count_pairs y_true y_pred 0 1"

definition FN :: "int list \<Rightarrow> int list \<Rightarrow> nat" where
  "FN y_true y_pred = count_pairs y_true y_pred 1 0"

definition TN :: "int list \<Rightarrow> int list \<Rightarrow> nat" where
  "TN y_true y_pred = count_pairs y_true y_pred 0 0"

text \<open>
  The five records of one tool, as values of the four cells: the specificity and the
  accuracy are numpy divisions, the other three are sklearn's scores.
\<close>

definition tool_records :: "string \<Rightarrow> string \<Rightarrow> int list \<Rightarrow> int list \<Rightarrow> stat_record list" where
  "tool_records genomic_accession tool y_true y_pred =
     (let tp = TP y_true y_pred; fp = FP y_true y_pred;
          fn = FN y_true y_pred; tn = TN y_true y_pred;
          precision = prf_divide tp (tp + fp);
          recall = prf_divide tp (tp + fn)
      in [(''Specificity'', genomic_accession, tool, np_div tn (tn + fp)),
          (''Recall'', genomic_accession, tool, Num recall),
          (''Precision'', genomic_accession, tool, Num precision),
          (''F1-score'', genomic_accession, tool,
             Num (if precision + recall = 0 then 0
                  else 2 * precision * recall / (precision + recall))),
          (''Accuracy'', genomic_accession, tool, np_div (tp + tn) (tp + fp + fn + tn))])"

text \<open>The samples the loop of \<^verbatim>\<open>bootstrap_acc\<close> draws, one per iteration.\<close>

fun bootstrap_samples :: "rng \<Rightarrow> 'a list \<Rightarrow> nat \<Rightarrow> 'a list list" where
  "bootstrap_samples g df_array 0 = []"
| "bootstrap_samples g df_array (Suc n) =
     (case resample g df_array of (sample, g') \<Rightarrow> sample # bootstrap_samples g' df_array n)"

text \<open>What identifies a bootstrap result: the test set, the tool and the resample number.\<close>

definition result_key :: "bootstrap_result \<Rightarrow> string \<times> string \<times> nat" where
  "result_key = (\<lambda>(genome, tool, bs_number, accuracy). (genome, tool, bs_number))"

section \<open>Example inputs\<close>

text \<open>
  One accession for which HMMER reported two classifications and every other tool
  one; one for which dbCAN reported two and every other tool one.
\<close>

definition cs_surplus :: "entry list" where
  "cs_surplus =
     [(''A'', ''dbCAN'', 1), (''A'', ''HMMER'', 1), (''A'', ''HMMER'', 0),
      (''A'', ''Hotpep'', 1), (''A'', ''DIAMOND'', 1), (''A'', ''CUPP'', 1),
      (''A'', ''eCAMI'', 1)]"

definition cs_fewer :: "entry list" where
  "cs_fewer =
     [(''A'', ''dbCAN'', 1), (''A'', ''dbCAN'', 0), (''A'', ''HMMER'', 1),
      (''A'', ''Hotpep'', 1), (''A'', ''DIAMOND'', 1), (''A'', ''CUPP'', 1),
      (''A'', ''eCAMI'', 1)]"

text \<open>
  Classification matrices in which every tool has the same column: the ground truth
  and the tools' column are given.
\<close>

definition uniform_frame :: "string list \<Rightarrow> int list \<Rightarrow> int list \<Rightarrow> dataframe" where
  "uniform_frame accs y_pred y_true =
     \<lparr>index = accs, columns = map (\<lambda>t. (t, y_pred)) tools @ [(''CAZy'', y_true)]\<rparr>"

text \<open>
  A generator whose raw numbers count up from 0, and two test sets of two proteins in
  which every tool is right on the first protein only.
\<close>

definition counting_rng :: rng where
  "counting_rng = \<lparr>source = (\<lambda>i. i), position = 0\<rparr>"

definition two_test_sets :: "classification_df list" where
  "two_test_sets =
     [\<lparr>genome_id = ''GCA_1'', df = uniform_frame [''A'', ''B''] [1, 0] [1, 1]\<rparr>,
      \<lparr>genome_id = ''GCA_2'', df = uniform_frame [''C'', ''D''] [1, 0] [1, 1]\<rparr>]"

section \<open>Basic lemmas\<close>

lemma bind_err_simps [simp]:
  "bind_err (Inl e) f = Inl e"
  "bind_err (Inr x) f = f x"
  by (simp_all add: bind_err_def)

lemma bind_err_eq_Inr:
  "bind_err m f = Inr y \<longleftrightarrow> (\<exists>x. m = Inr x \<and> f x = Inr y)"
  by (cases m) simp_all

section \<open>Collected accessions\<close>

lemma py_split_first:
  "\<exists>ws. py_split sep s = takeWhile (\<lambda>c. c \<noteq> sep) s # ws"
  by (induction s) (auto split: list.splits)

lemma py_split_index0:
  "py_index (py_split sep s) 0 = Inr (takeWhile (\<lambda>c. c \<noteq> sep) s)"
  using py_split_first [of sep s] by (auto simp: py_index_def)

lemma append_split_accessions_eq:
  "append_split_accessions ps tool cs =
     Inr (cs @ map (\<lambda>p. (takeWhile (\<lambda>c. c \<noteq> CHR '' '') (protein_accession p), tool,
                          cazyme_classification p)) ps)"
  by (induction ps arbitrary: cs) (simp_all add: py_split_index0)

lemma append_accessions_eq:
  "append_accessions ps tool cs =
     Inr (cs @ map (\<lambda>p. (protein_accession p, tool, cazyme_classification p)) ps)"
  by (induction ps arbitrary: cs) simp_all

text \<open>
  C10. \<^verbatim>\<open>get_prediction_classifications\<close> never raises and returns the accumulator
  extended by exactly one entry \<open>(accession, tool, classification)\<close> per prediction, in
  order. For eCAMI and CUPP the accession is the part of \<^verbatim>\<open>protein_accession\<close> before
  its first space (all of it when it has none); for every other tool it is
  \<^verbatim>\<open>protein_accession\<close> unchanged.
\<close>

theorem get_prediction_classifications_appends:
  "get_prediction_classifications tool_predictions prediction_tool classifications =
     Inr (classifications @
          map (\<lambda>p. (if prediction_tool = ''eCAMI'' \<or> prediction_tool = ''CUPP''
                     then takeWhile (\<lambda>c. c \<noteq> CHR '' '') (protein_accession p)
                     else protein_accession p,
                     prediction_tool, cazyme_classification p))
              tool_predictions)"
  by (simp add: get_prediction_classifications_def append_split_accessions_eq
      append_accessions_eq)

theorem get_prediction_classifications_appends_witness:
  "get_prediction_classifications
     [\<lparr>protein_accession = ''QAT1 hypothetical protein'', cazyme_classification = 1\<rparr>]
     ''CUPP'' [(''QAT0'', ''dbCAN'', 0)]
   = Inr [(''QAT0'', ''dbCAN'', 0), (''QAT1'', ''CUPP'', 1)]
   \<and> get_prediction_classifications
     [\<lparr>protein_accession = ''QAT1 hypothetical protein'', cazyme_classification = 1\<rparr>]
     ''HMMER'' []
   = Inr [(''QAT1 hypothetical protein'', ''HMMER'', 1)]"
  using get_prediction_classifications_appends
          [of "[\<lparr>protein_accession = ''QAT1 hypothetical protein'', cazyme_classification = 1\<rparr>]"
              "''CUPP''" "[(''QAT0'', ''dbCAN'', 0)]"]
        get_prediction_classifications_appends
          [of "[\<lparr>protein_accession = ''QAT1 hypothetical protein'', cazyme_classification = 1\<rparr>]"
              "''HMMER''" "[]"]
  by simp

section \<open>The ground-truth column\<close>

lemma retrieve_ground_truths_column:
  "map_of (columns (retrieve_ground_truths frame cazy_dict)) ''CAZy'' =
     Some (map (\<lambda>a. if a \<in> dom cazy_dict then 1 else 0) (index frame))"
  by (auto simp: retrieve_ground_truths_def update_conv' dom_def split: option.splits)

text \<open>
  C2. After \<^verbatim>\<open>retrieve_ground_truths\<close> the frame has a column \<^verbatim>\<open>CAZy\<close> with one value
  per row; the value of a row is 1 exactly when the row's accession is a key of the
  ground-truth mapping and 0 exactly when it is not. The values stored under the keys
  (the families) play no part: the mapping's value type is arbitrary.
\<close>

theorem retrieve_ground_truths_iff:
  "\<exists>cazy. map_of (columns (retrieve_ground_truths classifications_df cazy_dict)) ''CAZy'' = Some cazy
     \<and> index (retrieve_ground_truths classifications_df cazy_dict) = index classifications_df
     \<and> length cazy = length (index classifications_df)
     \<and> (\<forall>i < length (index classifications_df).
           (cazy ! i = 1 \<longleftrightarrow> index classifications_df ! i \<in> dom cazy_dict)
         \<and> (cazy ! i = 0 \<longleftrightarrow> index classifications_df ! i \<notin> dom cazy_dict))"
  by (simp add: retrieve_ground_truths_column) (simp add: retrieve_ground_truths_def)

theorem retrieve_ground_truths_iff_witness:
  "map_of (columns (retrieve_ground_truths
       \<lparr>index = [''A'', ''B''], columns = [(''dbCAN'', [0, 1])]\<rparr>
       [''A'' \<mapsto> [''GH1'']])) ''CAZy'' = Some [1, 0]"
proof -
  let ?frame = "\<lparr>index = [''A'', ''B''], columns = [(''dbCAN'', [0, 1])]\<rparr>"
  let ?d = "[''A'' \<mapsto> [''GH1'']]"
  obtain cazy where c: "map_of (columns (retrieve_ground_truths ?frame ?d)) ''CAZy'' = Some cazy"
    and l: "length cazy = length (index ?frame)"
    and a: "\<forall>i < length (index ?frame).
           (cazy ! i = 1 \<longleftrightarrow> index ?frame ! i \<in> dom ?d)
         \<and> (cazy ! i = 0 \<longleftrightarrow> index ?frame ! i \<notin> dom ?d)"
    using retrieve_ground_truths_iff [of ?frame ?d] by blast
  from a have "cazy ! 0 = 1" "cazy ! 1 = 0" by simp_all
  moreover from l have "length cazy = 2" by simp
  ultimately have "cazy = [1, 0]"
    by (cases cazy; cases "tl cazy") auto
  with c show ?thesis by simp
qed

section \<open>Accuracy on a one-class sample\<close>

text \<open>
  C4. The claim: for every non-empty sample of binary entries the accuracy computation
  is defined and lies in \<open>[0, 1]\<close>. The code fails on a sample in which prediction and
  ground truth hold one and the same class: for the one-row sample with prediction 1
  and ground truth 1 the confusion matrix is \<open>[[1]]\<close>, the read of \<^verbatim>\<open>cm[1][0]\<close> is out of
  range, and \<^verbatim>\<open>calc_acc\<close> raises \<^verbatim>\<open>IndexError\<close> where the accuracy is 1. Every
  resample of that one-row array is the array itself, so \<^verbatim>\<open>bootstrap_acc\<close> raises
  as well.
\<close>

theorem calc_acc_single_class_raises:
  "confusion_matrix [1] [1] = Inr [[1]]
   \<and> calc_acc [1] [1] = Inl IndexError
   \<and> (case bootstrap_acc counting_rng [(1, 1)] 1 of
         Inl e \<Rightarrow> e = IndexError
       | Inr r \<Rightarrow> False)"
  by code_simp

section \<open>The dictionary and the rows of the matrix\<close>

lemma cell_add_classification:
  "cell (add_classification d (a, t, c)) a' t' =
     (if a' = a \<and> t' = t
      then Some (case cell d a t of None \<Rightarrow> [c] | Some l \<Rightarrow> l @ [c])
      else cell d a' t')"
  by (auto simp: add_classification_def cell_def update_conv' split: option.splits)

lemma occurrences_snoc:
  "occurrences (cs @ [(a, t, c)]) a' t' =
     occurrences cs a' t' @ (if a' = a \<and> t' = t then [c] else [])"
  by (simp add: occurrences_def)

lemma cell_foldl:
  "cell (foldl add_classification [] cs) a t =
     (if occurrences cs a t = [] then None else Some (occurrences cs a t))"
proof (induction cs rule: rev_induct)
  case Nil
  show ?case by (simp add: cell_def occurrences_def)
next
  case (snoc x cs)
  obtain a' t' c' where x: "x = (a', t', c')" by (cases x)
  show ?case
    unfolding x using snoc
    by (auto simp: cell_add_classification occurrences_snoc)
qed

lemma keys_add_classification:
  "map fst (add_classification d (a, t, c)) =
     (if a \<in> set (map fst d) then map fst d else map fst d @ [a])"
  by (auto simp: add_classification_def update_keys map_of_eq_None_iff image_iff
      split: option.splits dest: map_of_SomeD weak_map_of_SomeI)

lemma accessions_snoc:
  "accessions (cs @ [(a, t, c)]) =
     (if a \<in> set (accessions cs) then accessions cs else accessions cs @ [a])"
  by (auto simp: accessions_def)

lemma keys_foldl: "map fst (foldl add_classification [] cs) = accessions cs"
proof (induction cs rule: rev_induct)
  case Nil
  show ?case by (simp add: accessions_def)
next
  case (snoc x cs)
  obtain a' t' c' where x: "x = (a', t', c')" by (cases x)
  show ?case
    unfolding x using snoc
    by (simp add: keys_add_classification accessions_snoc)
qed

lemma distinct_accessions: "distinct (accessions cs)"
  by (simp add: accessions_def)

lemma set_accessions: "set (accessions cs) = fst ` set cs"
  by (simp add: accessions_def)


lemma bind_err_eq_Inl:
  "bind_err m f = Inl e \<longleftrightarrow> m = Inl e \<or> (\<exists>x. m = Inr x \<and> f x = Inl e)"
  by (cases m) simp_all

lemma tool_cells_Inr_iff:
  "tool_cells inner i ts = Inr vs \<longleftrightarrow>
     (\<forall>t\<in>set ts. \<exists>l. map_of inner t = Some l \<and> i < length l)
     \<and> vs = map (\<lambda>t. the (map_of inner t) ! i) ts"
  by (induction ts arbitrary: vs)
     (auto simp: bind_err_eq_Inr dict_get_def py_index_def split: option.splits)

lemma accession_rows_Inr_iff:
  "accession_rows a inner ns = Inr rows \<longleftrightarrow>
     (\<forall>i\<in>set ns. \<forall>t\<in>set tools. \<exists>l. map_of inner t = Some l \<and> i < length l)
     \<and> rows = map (\<lambda>i. (a, map (\<lambda>t. the (map_of inner t) ! i) tools)) ns"
  by (induction ns arbitrary: rows) (auto simp: bind_err_eq_Inr tool_cells_Inr_iff)

lemma build_rows_Inr_iff:
  "build_rows d = Inr rows \<longleftrightarrow>
     (\<forall>(a, inner)\<in>set d. \<exists>l. map_of inner ''dbCAN'' = Some l
         \<and> (\<forall>i<length l. \<forall>t\<in>set tools. \<exists>l'. map_of inner t = Some l' \<and> i < length l'))
     \<and> rows = concat (map (\<lambda>(a, inner).
          map (\<lambda>i. (a, map (\<lambda>t. the (map_of inner t) ! i) tools))
              [0..<length (the (map_of inner ''dbCAN''))]) d)"
proof (induction d arbitrary: rows)
  case Nil
  show ?case by auto
next
  case (Cons p d)
  obtain a inner where p: "p = (a, inner)" by (cases p)
  show ?case
    unfolding p
    by (auto simp: bind_err_eq_Inr Cons accession_rows_Inr_iff dict_get_def
        split: option.splits)
qed

lemma tool_cells_error:
  "tool_cells inner i ts = Inl e \<Longrightarrow> e = IndexError \<or> (\<exists>t\<in>set ts. e = KeyError t)"
  by (induction ts)
     (auto simp: bind_err_eq_Inl dict_get_def py_index_def split: option.splits if_splits)

lemma accession_rows_error:
  "accession_rows a inner ns = Inl e \<Longrightarrow> e = IndexError \<or> (\<exists>t\<in>set tools. e = KeyError t)"
  by (induction ns) (auto simp: bind_err_eq_Inl dest: tool_cells_error)

lemma build_rows_error:
  "build_rows d = Inl e \<Longrightarrow> e = IndexError \<or> (\<exists>t\<in>set tools. e = KeyError t)"
proof (induction d)
  case Nil
  then show ?case by simp
next
  case (Cons p d)
  obtain a inner where p: "p = (a, inner)" by (cases p)
  have db: "''dbCAN'' \<in> set tools" by (simp add: tools_def)
  from Cons.prems Cons.IH db show ?case
    unfolding p
    by (auto simp: bind_err_eq_Inl dict_get_def split: option.splits
        dest: accession_rows_error)
qed


lemma dict_inner:
  assumes "(a, inner) \<in> set (foldl add_classification [] cs)"
  shows "map_of inner t =
           (if occurrences cs a t = [] then None else Some (occurrences cs a t))"
proof -
  let ?d = "foldl add_classification [] cs"
  have "distinct (map fst ?d)" by (simp add: keys_foldl distinct_accessions)
  with assms have "map_of ?d a = Some inner" by simp
  then have "cell ?d a t = map_of inner t" by (simp add: cell_def)
  then show ?thesis by (simp add: cell_foldl)
qed

lemma inner_condition:
  assumes "(a, inner) \<in> set (foldl add_classification [] cs)"
  shows "(\<exists>l. map_of inner ''dbCAN'' = Some l
            \<and> (\<forall>i<length l. \<forall>t\<in>set tools. \<exists>l'. map_of inner t = Some l' \<and> i < length l'))
         \<longleftrightarrow> occurrences cs a ''dbCAN'' \<noteq> []
            \<and> (\<forall>t\<in>set tools. length (occurrences cs a ''dbCAN'') \<le> length (occurrences cs a t))"
    (is "?L \<longleftrightarrow> ?R")
proof
  assume ?L
  then obtain l where l: "map_of inner ''dbCAN'' = Some l"
    and all: "\<forall>i<length l. \<forall>t\<in>set tools. \<exists>l'. map_of inner t = Some l' \<and> i < length l'"
    by blast
  from l have ne: "occurrences cs a ''dbCAN'' \<noteq> []" and leq: "l = occurrences cs a ''dbCAN''"
    by (auto simp: dict_inner [OF assms] split: if_splits)
  have "length l \<le> length (occurrences cs a t)" if "t \<in> set tools" for t
  proof -
    from ne leq have "length l - 1 < length l" by simp
    with all that obtain l' where "map_of inner t = Some l'" "length l - 1 < length l'"
      by blast
    then show ?thesis by (auto simp: dict_inner [OF assms] split: if_splits)
  qed
  with ne leq show ?R by simp
next
  assume r: ?R
  have "\<exists>l'. map_of inner t = Some l' \<and> i < length l'"
    if "i < length (occurrences cs a ''dbCAN'')" "t \<in> set tools" for i t
  proof -
    from r that have "i < length (occurrences cs a t)" by fastforce
    then show ?thesis by (auto simp: dict_inner [OF assms])
  qed
  with r show ?L by (simp add: dict_inner [OF assms])
qed

lemma build_rows_foldl_iff:
  "build_rows (foldl add_classification [] cs) = Inr rows \<longleftrightarrow>
     aligned cs
     \<and> rows = concat (map (\<lambda>a.
          map (\<lambda>i. (a, map (\<lambda>t. occurrences cs a t ! i) tools))
              [0..<length (occurrences cs a ''dbCAN'')]) (accessions cs))"
proof -
  let ?d = "foldl add_classification [] cs"
  have keys: "map fst ?d = accessions cs" by (rule keys_foldl)
  have acc: "set (accessions cs) = fst ` set ?d" using keys by (metis set_map)
  have cond: "(\<forall>(a, inner)\<in>set ?d. \<exists>l. map_of inner ''dbCAN'' = Some l
         \<and> (\<forall>i<length l. \<forall>t\<in>set tools. \<exists>l'. map_of inner t = Some l' \<and> i < length l'))
       \<longleftrightarrow> aligned cs" (is "?A \<longleftrightarrow> _")
  proof
    assume a: ?A
    show "aligned cs"
      unfolding aligned_def
    proof
      fix x assume "x \<in> set (accessions cs)"
      then obtain inner where mem: "(x, inner) \<in> set ?d" unfolding acc by auto
      with a have "\<exists>l. map_of inner ''dbCAN'' = Some l
         \<and> (\<forall>i<length l. \<forall>t\<in>set tools. \<exists>l'. map_of inner t = Some l' \<and> i < length l')"
        by blast
      then show "occurrences cs x ''dbCAN'' \<noteq> []
        \<and> (\<forall>t\<in>set tools. length (occurrences cs x ''dbCAN'') \<le> length (occurrences cs x t))"
        unfolding inner_condition [OF mem] .
    qed
  next
    assume al: "aligned cs"
    show ?A
    proof (rule ballI, rule prod.case_eq_if [THEN iffD2])
      fix p assume "p \<in> set ?d"
      then have mem: "(fst p, snd p) \<in> set ?d" by simp
      then have "fst p \<in> set (accessions cs)" unfolding acc by (metis fst_conv image_eqI)
      with al have "occurrences cs (fst p) ''dbCAN'' \<noteq> []
        \<and> (\<forall>t\<in>set tools. length (occurrences cs (fst p) ''dbCAN'')
                \<le> length (occurrences cs (fst p) t))"
        unfolding aligned_def by blast
      then show "\<exists>l. map_of (snd p) ''dbCAN'' = Some l
         \<and> (\<forall>i<length l. \<forall>t\<in>set tools. \<exists>l'. map_of (snd p) t = Some l' \<and> i < length l')"
        unfolding inner_condition [OF mem] .
    qed
  qed
  have rows: "concat (map (\<lambda>(a, inner).
          map (\<lambda>i. (a, map (\<lambda>t. the (map_of inner t) ! i) tools))
              [0..<length (the (map_of inner ''dbCAN''))]) ?d)
      = concat (map (\<lambda>a.
          map (\<lambda>i. (a, map (\<lambda>t. occurrences cs a t ! i) tools))
              [0..<length (occurrences cs a ''dbCAN'')]) (accessions cs))"
    if al: "aligned cs"
  proof -
    have "map (\<lambda>(a, inner).
          map (\<lambda>i. (a, map (\<lambda>t. the (map_of inner t) ! i) tools))
              [0..<length (the (map_of inner ''dbCAN''))]) ?d
      = map (\<lambda>p. map (\<lambda>i. (fst p, map (\<lambda>t. occurrences cs (fst p) t ! i) tools))
              [0..<length (occurrences cs (fst p) ''dbCAN'')]) ?d"
    proof (rule map_cong [OF refl])
      fix p assume p: "p \<in> set ?d"
      obtain a inner where pe: "p = (a, inner)" by (cases p)
      from p pe have mem: "(a, inner) \<in> set ?d" by simp
      then have "a \<in> set (accessions cs)" using keys by (metis fst_conv image_eqI set_map)
      with al have ne: "occurrences cs a ''dbCAN'' \<noteq> []"
        and le: "\<forall>t\<in>set tools. length (occurrences cs a ''dbCAN'') \<le> length (occurrences cs a t)"
        by (auto simp: aligned_def)
      from le ne have "\<forall>t\<in>set tools. occurrences cs a t \<noteq> []" by fastforce
      then have "\<forall>t\<in>set tools. the (map_of inner t) = occurrences cs a t"
        by (simp add: dict_inner [OF mem])
      moreover have "the (map_of inner ''dbCAN'') = occurrences cs a ''dbCAN''"
        using ne by (simp add: dict_inner [OF mem])
      ultimately show "(case p of (a, inner) \<Rightarrow>
          map (\<lambda>i. (a, map (\<lambda>t. the (map_of inner t) ! i) tools))
              [0..<length (the (map_of inner ''dbCAN''))])
        = map (\<lambda>i. (fst p, map (\<lambda>t. occurrences cs (fst p) t ! i) tools))
              [0..<length (occurrences cs (fst p) ''dbCAN'')]"
        by (simp add: pe)
    qed
    also have "\<dots> = map (\<lambda>a. map (\<lambda>i. (a, map (\<lambda>t. occurrences cs a t ! i) tools))
              [0..<length (occurrences cs a ''dbCAN'')]) (map fst ?d)"
      by (simp add: comp_def)
    finally show ?thesis by (simp add: keys)
  qed
  show ?thesis
    unfolding build_rows_Inr_iff cond using rows by auto
qed

lemma map_nth_take: "n \<le> length xs \<Longrightarrow> map (\<lambda>i. xs ! i) [0..<n] = take n xs"
  by (rule nth_equalityI) auto

lemma upt_tools: "[0..<length tools] = [0, 1, 2, 3, 4, 5]"
  by (simp add: tools_def upt_conv_Cons)

lemma map_of_tool_columns:
  "j < length tools \<Longrightarrow>
     map_of (map (\<lambda>j. (tools ! j, f j)) [0..<length tools]) (tools ! j) = Some (f j)"
  unfolding upt_tools
  by (auto simp: tools_def less_Suc_eq numeral_eq_Suc)


lemma build_rows_aligned:
  "aligned cs \<Longrightarrow>
   build_rows (foldl add_classification [] cs) =
     Inr (concat (map (\<lambda>a.
          map (\<lambda>i. (a, map (\<lambda>t. occurrences cs a t ! i) tools))
              [0..<length (occurrences cs a ''dbCAN'')]) (accessions cs)))"
  by (simp add: build_rows_foldl_iff)

lemma build_rows_not_aligned:
  assumes "\<not> aligned cs"
  shows "\<exists>e. build_rows (foldl add_classification [] cs) = Inl e
             \<and> (e = IndexError \<or> (\<exists>t\<in>set tools. e = KeyError t))"
proof (cases "build_rows (foldl add_classification [] cs)")
  case (Inl e)
  then show ?thesis using build_rows_error [OF Inl] by simp
next
  case (Inr rows)
  with assms show ?thesis by (simp add: build_rows_foldl_iff)
qed

lemma build_classification_df_not_aligned:
  assumes "\<not> aligned cs"
  shows "\<exists>e. build_classification_df cs = Inl e
             \<and> (e = IndexError \<or> (\<exists>t\<in>set tools. e = KeyError t))"
  using build_rows_not_aligned [OF assms]
  by (auto simp: build_classification_df_def)

lemma build_classification_df_aligned:
  assumes al: "aligned cs"
  shows "build_classification_df cs =
     Inr \<lparr>index = concat (map (\<lambda>a. replicate (length (occurrences cs a ''dbCAN'')) a)
                               (accessions cs)),
          columns = map (\<lambda>j. (tools ! j,
                  concat (map (\<lambda>a. take (length (occurrences cs a ''dbCAN''))
                                         (occurrences cs a (tools ! j)))
                              (accessions cs)))) [0..<length tools]\<rparr>"
proof -
  let ?rows = "concat (map (\<lambda>a.
          map (\<lambda>i. (a, map (\<lambda>t. occurrences cs a t ! i) tools))
              [0..<length (occurrences cs a ''dbCAN'')]) (accessions cs))"
  have idx: "map fst ?rows = concat (map (\<lambda>a. replicate (length (occurrences cs a ''dbCAN'')) a)
                               (accessions cs))"
    by (simp add: map_concat comp_def map_replicate_const)
  have col: "map (\<lambda>r. snd r ! j) ?rows =
      concat (map (\<lambda>a. take (length (occurrences cs a ''dbCAN''))
                                         (occurrences cs a (tools ! j))) (accessions cs))"
    if j: "j < length tools" for j
  proof -
    have "map (\<lambda>r. snd r ! j) ?rows =
       concat (map (\<lambda>a. map (\<lambda>i. occurrences cs a (tools ! j) ! i)
              [0..<length (occurrences cs a ''dbCAN'')]) (accessions cs))"
      using j by (simp add: map_concat comp_def)
    also have "\<dots> = concat (map (\<lambda>a. take (length (occurrences cs a ''dbCAN''))
                                         (occurrences cs a (tools ! j))) (accessions cs))"
    proof -
      have "map (\<lambda>a. map (\<lambda>i. occurrences cs a (tools ! j) ! i)
              [0..<length (occurrences cs a ''dbCAN'')]) (accessions cs)
          = map (\<lambda>a. take (length (occurrences cs a ''dbCAN''))
                                         (occurrences cs a (tools ! j))) (accessions cs)"
      proof (rule map_cong [OF refl])
        fix a assume "a \<in> set (accessions cs)"
        with al j have "length (occurrences cs a ''dbCAN'') \<le> length (occurrences cs a (tools ! j))"
          unfolding aligned_def by (meson nth_mem)
        then show "map (\<lambda>i. occurrences cs a (tools ! j) ! i) [0..<length (occurrences cs a ''dbCAN'')]
            = take (length (occurrences cs a ''dbCAN'')) (occurrences cs a (tools ! j))"
          by (rule map_nth_take)
      qed
      then show ?thesis by (rule arg_cong)
    qed
    finally show ?thesis .
  qed
  have cols: "map (\<lambda>j. (tools ! j, map (\<lambda>r. snd r ! j) ?rows)) [0..<length tools]
     = map (\<lambda>j. (tools ! j,
                  concat (map (\<lambda>a. take (length (occurrences cs a ''dbCAN''))
                                         (occurrences cs a (tools ! j)))
                              (accessions cs)))) [0..<length tools]"
    by (rule map_cong [OF refl]) (simp add: col)
  show ?thesis
    unfolding build_classification_df_def build_rows_aligned [OF al] bind_err_simps idx cols ..
qed

section \<open>Tools that disagree on the number of predictions\<close>

lemma entry_accession: "(a, t, c) \<in> set cs \<Longrightarrow> a \<in> set (accessions cs)"
  by (force simp: accessions_def)

lemma occurrences_nonempty_accession:
  "occurrences cs a t \<noteq> [] \<Longrightarrow> a \<in> set (accessions cs)"
  by (auto simp: occurrences_def filter_empty_conv intro: entry_accession)

lemma fewer_not_aligned:
  assumes "t \<in> set tools" "length (occurrences cs a t) < length (occurrences cs a ''dbCAN'')"
  shows "\<not> aligned cs"
proof -
  from assms(2) have "occurrences cs a ''dbCAN'' \<noteq> []" by auto
  then have "a \<in> set (accessions cs)" by (rule occurrences_nonempty_accession)
  with assms show ?thesis unfolding aligned_def by (meson not_le)
qed

lemma missing_not_aligned:
  assumes "(a, t0, c0) \<in> set cs" "t \<in> set tools" "occurrences cs a t = []"
  shows "\<not> aligned cs"
proof
  assume al: "aligned cs"
  have a: "a \<in> set (accessions cs)" using assms(1) by (rule entry_accession)
  with al have ne: "occurrences cs a ''dbCAN'' \<noteq> []"
    and le: "length (occurrences cs a ''dbCAN'') \<le> length (occurrences cs a t)"
    using assms(2) unfolding aligned_def by blast+
  with assms(3) show False by simp
qed


text \<open>
  C3 (as the code has it). The build has no alignment check of its own. The rows of an
  accession are indexed by its dbCAN list. When some tool reported fewer
  classifications than dbCAN for an accession, the build ends with a Python error
  (\<^verbatim>\<open>IndexError\<close>, or \<^verbatim>\<open>KeyError\<close> with a tool name), which carries neither the
  accession nor the counts. When the build returns a frame, the column of every tool
  holds, accession by accession, only as many of the tool's classifications as dbCAN
  reported: the classifications a tool reported beyond that number are left out, and
  no error is raised for them.
\<close>

theorem build_classification_df_truncates:
  "(t \<in> set tools \<and> length (occurrences cs a t) < length (occurrences cs a ''dbCAN'')
      \<longrightarrow> (\<exists>e. build_classification_df cs = Inl e
               \<and> (e = IndexError \<or> (\<exists>t'\<in>set tools. e = KeyError t'))))
   \<and> (t \<in> set tools \<and> build_classification_df cs = Inr frame
      \<longrightarrow> map_of (columns frame) t =
            Some (concat (map (\<lambda>a. take (length (occurrences cs a ''dbCAN''))
                                        (occurrences cs a t))
                              (accessions cs))))"
proof (intro conjI impI)
  assume "t \<in> set tools \<and> length (occurrences cs a t) < length (occurrences cs a ''dbCAN'')"
  then have "\<not> aligned cs" using fewer_not_aligned by blast
  then show "\<exists>e. build_classification_df cs = Inl e
               \<and> (e = IndexError \<or> (\<exists>t'\<in>set tools. e = KeyError t'))"
    by (rule build_classification_df_not_aligned)
next
  assume h: "t \<in> set tools \<and> build_classification_df cs = Inr frame"
  have al: "aligned cs"
  proof (rule ccontr)
    assume "\<not> aligned cs"
    from build_classification_df_not_aligned [OF this] h show False by auto
  qed
  from h obtain j where j: "j < length tools" "t = tools ! j"
    by (auto simp: in_set_conv_nth)
  from h have "frame = \<lparr>index = concat (map (\<lambda>a. replicate (length (occurrences cs a ''dbCAN'')) a)
                               (accessions cs)),
          columns = map (\<lambda>j. (tools ! j,
                  concat (map (\<lambda>a. take (length (occurrences cs a ''dbCAN''))
                                         (occurrences cs a (tools ! j)))
                              (accessions cs)))) [0..<length tools]\<rparr>"
    unfolding build_classification_df_aligned [OF al] by simp
  then show "map_of (columns frame) t =
            Some (concat (map (\<lambda>a. take (length (occurrences cs a ''dbCAN''))
                                        (occurrences cs a t))
                              (accessions cs)))"
    using map_of_tool_columns [OF j(1)] by (simp add: j(2))
qed
theorem build_classification_df_truncates_witness:
  "(''HMMER'' \<in> set tools
      \<and> length (occurrences cs_fewer ''A'' ''HMMER'') < length (occurrences cs_fewer ''A'' ''dbCAN'')
      \<and> (\<exists>e. build_classification_df cs_fewer = Inl e
               \<and> (e = IndexError \<or> (\<exists>t'\<in>set tools. e = KeyError t'))))
   \<and> (\<exists>frame. build_classification_df cs_surplus = Inr frame
      \<and> occurrences cs_surplus ''A'' ''HMMER'' = [1, 0]
      \<and> map_of (columns frame) ''HMMER'' = Some [1])"
proof -
  have t: "''HMMER'' \<in> set tools" by (simp add: tools_def)
  have l: "length (occurrences cs_fewer ''A'' ''HMMER'') < length (occurrences cs_fewer ''A'' ''dbCAN'')"
    by (simp add: cs_fewer_def occurrences_def)
  have 1: "\<exists>e. build_classification_df cs_fewer = Inl e
               \<and> (e = IndexError \<or> (\<exists>t'\<in>set tools. e = KeyError t'))"
    using build_classification_df_truncates [of "''HMMER''" cs_fewer "''A''"] t l by blast
  obtain frame where f: "build_classification_df cs_surplus = Inr frame"
    using build_classification_df_aligned [of cs_surplus]
    by (simp add: aligned_def accessions_def occurrences_def cs_surplus_def tools_def)
  have o: "occurrences cs_surplus ''A'' ''HMMER'' = [1, 0]"
    by (simp add: cs_surplus_def occurrences_def)
  have "map_of (columns frame) ''HMMER'' =
            Some (concat (map (\<lambda>a. take (length (occurrences cs_surplus a ''dbCAN''))
                                        (occurrences cs_surplus a ''HMMER''))
                              (accessions cs_surplus)))"
    using build_classification_df_truncates [of "''HMMER''" cs_surplus "''A''" frame] t f
    by blast
  then have "map_of (columns frame) ''HMMER'' = Some [1]"
    by (simp add: cs_surplus_def occurrences_def accessions_def)
  with t l 1 f o show ?thesis by blast
qed

text \<open>
  The claim as stated fails on \<open>cs_surplus\<close>: HMMER reported two classifications for
  the accession and dbCAN one, yet the build raises nothing and returns a frame of one
  row, from which HMMER's second classification is missing.
\<close>

theorem build_classification_df_surplus_dropped:
  "length (occurrences cs_surplus ''A'' ''HMMER'') \<noteq> length (occurrences cs_surplus ''A'' ''dbCAN'')
   \<and> build_classification_df cs_surplus =
       Inr \<lparr>index = [''A''],
            columns = [(''dbCAN'', [1]), (''HMMER'', [1]), (''Hotpep'', [1]),
                       (''DIAMOND'', [1]), (''CUPP'', [1]), (''eCAMI'', [1])]\<rparr>"
  unfolding cs_surplus_def by code_simp

section \<open>An accession that a tool did not report\<close>

lemma tool_cells_first_missing:
  "find (\<lambda>t. map_of inner t = None) ts = Some t \<Longrightarrow>
   (\<forall>t'\<in>set ts. \<forall>l. map_of inner t' = Some l \<longrightarrow> i < length l) \<Longrightarrow>
   tool_cells inner i ts = Inl (KeyError t)"
  by (induction ts) (auto simp: dict_get_def py_index_def split: if_splits)

lemma remdups_snoc:
  "remdups (ys @ [a]) = remdups (filter (\<lambda>y. y \<noteq> a) ys) @ [a]"
  by (induction ys) auto

lemma accessions_Cons:
  "accessions (x # cs) = fst x # rev (remdups (filter (\<lambda>y. y \<noteq> fst x) (rev (map fst cs))))"
  by (simp add: accessions_def remdups_snoc)

lemma first_accession_missing_tool:
  assumes f: "find (\<lambda>t. occurrences ((a, t0, c0) # rest) a t = []) tools = Some t"
  shows "build_classification_df ((a, t0, c0) # rest) = Inl (KeyError t)"
proof -
  let ?cs = "(a, t0, c0) # rest"
  let ?d = "foldl add_classification [] ?cs"
  obtain more where "map fst ?d = a # more"
    using accessions_Cons [of "(a, t0, c0)" rest] unfolding keys_foldl by auto
  then obtain inner d' where d: "?d = (a, inner) # d'"
    by (cases ?d) auto
  then have mem: "(a, inner) \<in> set ?d" by simp
  have inner: "map_of inner t' = 
      (if occurrences ?cs a t' = [] then None else Some (occurrences ?cs a t'))" for t'
    by (rule dict_inner [OF mem])
  have f': "find (\<lambda>t. map_of inner t = None) tools = Some t"
  proof -
    have "(\<lambda>t. map_of inner t = None) = (\<lambda>t. occurrences ?cs a t = [])"
      by (rule ext) (simp add: inner)
    with f show ?thesis by simp
  qed
  have len: "\<forall>t'\<in>set tools. \<forall>l. map_of inner t' = Some l \<longrightarrow> 0 < length l"
    by (auto simp: inner split: if_splits)
  have cells: "tool_cells inner 0 tools = Inl (KeyError t)"
    by (rule tool_cells_first_missing [OF f' len])
  have "build_rows ((a, inner) # d') = Inl (KeyError t)"
  proof (cases "map_of inner ''dbCAN''")
    case None
    with f' have "t = ''dbCAN''" by (simp add: tools_def)
    with None show ?thesis by (simp add: dict_get_def)
  next
    case (Some l)
    with len have "0 < length l" by (simp add: tools_def)
    then have "[0..<length l] = 0 # [1..<length l]" by (simp add: upt_conv_Cons)
    with Some cells show ?thesis by (simp add: dict_get_def)
  qed
  then show ?thesis unfolding build_classification_df_def d by simp
qed

text \<open>
  C6 (as the code has it). When some accession of the input has an entry but none from
  one of the six tools, the build ends with a Python error and returns no matrix, so
  no value is put in place of the missing one. The error is an \<^verbatim>\<open>IndexError\<close> or a
  \<^verbatim>\<open>KeyError\<close> whose key is a tool name; when the accession is the first of the input,
  it is the \<^verbatim>\<open>KeyError\<close> of the first tool, in column order, that has no entry for it.
  The error names no accession.
\<close>

theorem build_classification_df_missing_tool:
  "((a, t0, c0) \<in> set cs \<and> t \<in> set tools \<and> occurrences cs a t = []
      \<longrightarrow> (\<exists>e. build_classification_df cs = Inl e
               \<and> (e = IndexError \<or> (\<exists>t'\<in>set tools. e = KeyError t'))))
   \<and> (find (\<lambda>t. occurrences ((a, t0, c0) # rest) a t = []) tools = Some t
      \<longrightarrow> build_classification_df ((a, t0, c0) # rest) = Inl (KeyError t))"
  using missing_not_aligned build_classification_df_not_aligned first_accession_missing_tool
  by blast

theorem build_classification_df_missing_tool_witness:
  "(''A'', ''dbCAN'', 1) \<in> set [(''A'', ''dbCAN'', 1), (''A'', ''HMMER'', 0), (''A'', ''DIAMOND'', 1 :: int)]
   \<and> ''Hotpep'' \<in> set tools
   \<and> occurrences [(''A'', ''dbCAN'', 1), (''A'', ''HMMER'', 0), (''A'', ''DIAMOND'', 1)] ''A'' ''Hotpep'' = []
   \<and> find (\<lambda>t. occurrences [(''A'', ''dbCAN'', 1), (''A'', ''HMMER'', 0), (''A'', ''DIAMOND'', 1)] ''A'' t = [])
        tools = Some ''Hotpep''
   \<and> build_classification_df [(''A'', ''dbCAN'', 1), (''A'', ''HMMER'', 0), (''A'', ''DIAMOND'', 1)]
       = Inl (KeyError ''Hotpep'')"
proof -
  let ?cs = "[(''A'', ''dbCAN'', 1), (''A'', ''HMMER'', 0), (''A'', ''DIAMOND'', 1 :: int)]"
  have f: "find (\<lambda>t. occurrences ?cs ''A'' t = []) tools = Some ''Hotpep''"
    by (simp add: tools_def occurrences_def)
  have m: "(''A'', ''dbCAN'', 1) \<in> set ?cs \<and> ''Hotpep'' \<in> set tools
    \<and> occurrences ?cs ''A'' ''Hotpep'' = []"
    by (simp add: tools_def occurrences_def)
  have 1: "\<exists>e. build_classification_df ?cs = Inl e
               \<and> (e = IndexError \<or> (\<exists>t'\<in>set tools. e = KeyError t'))"
    by (rule build_classification_df_missing_tool
         [of "''A''" "''dbCAN''" 1 ?cs "''Hotpep''", THEN conjunct1, THEN mp, OF m])
  have 2: "build_classification_df ?cs = Inl (KeyError ''Hotpep'')"
    by (rule build_classification_df_missing_tool
         [of "''A''" "''dbCAN''" 1 _ "''Hotpep''" "[(''A'', ''HMMER'', 0), (''A'', ''DIAMOND'', 1)]",
          THEN conjunct2, THEN mp, OF f])
  from m f 2 show ?thesis by (intro conjI) (erule conjE | assumption)+
qed

text \<open>
  The claim as stated asks for an error that identifies the accession and the tool.
  The error of the build is the same value for accession \<open>A\<close> and for accession \<open>B\<close>.
\<close>

theorem build_classification_df_error_without_accession:
  "build_classification_df [(''A'', ''dbCAN'', 1)] = Inl (KeyError ''HMMER'')
   \<and> build_classification_df [(''B'', ''dbCAN'', 1)] = Inl (KeyError ''HMMER'')"
  by code_simp

section \<open>The records of the binary evaluator\<close>

lemma unique_labels_binary:
  assumes "set y_true \<union> set y_pred = {0, 1}"
  shows "unique_labels y_true y_pred = [0, 1]"
proof -
  have "unique_labels y_true y_pred = sorted_list_of_set (set (y_true @ y_pred))"
    unfolding unique_labels_def by (rule sorted_list_of_set_sort_remdups [symmetric])
  also have "set (y_true @ y_pred) = {0, 1}" using assms by simp
  also have "sorted_list_of_set {0, 1 :: int} = [0, 1]" by simp
  finally show ?thesis .
qed

lemma confusion_matrix_binary:
  assumes "length y_pred = length y_true" "set y_true \<union> set y_pred = {0, 1}"
  shows "confusion_matrix y_true y_pred =
           Inr [[TN y_true y_pred, FP y_true y_pred], [FN y_true y_pred, TP y_true y_pred]]"
  using assms
  by (simp add: confusion_matrix_def unique_labels_binary TN_def FP_def FN_def TP_def)

lemma check_binary_targets_binary:
  assumes "length y_pred = length y_true" "set y_true \<union> set y_pred = {0, 1}"
  shows "check_binary_targets y_true y_pred = Inr ()"
  using assms by (simp add: check_binary_targets_def unique_labels_binary)

lemma binary_sums:
  assumes "length y_true = length y_pred" "set y_true \<subseteq> {0, 1}" "set y_pred \<subseteq> {0, 1}"
  shows "predicted_sum y_pred = TP y_true y_pred + FP y_true y_pred
       \<and> true_sum y_true = TP y_true y_pred + FN y_true y_pred
       \<and> length y_true = TP y_true y_pred + FP y_true y_pred + FN y_true y_pred + TN y_true y_pred"
  using assms
  by (induction y_true y_pred rule: list_induct2)
     (auto simp: predicted_sum_def true_sum_def TP_def FP_def FN_def TN_def count_pairs_def)

lemma tool_statistics_binary:
  assumes col: "map_of (columns frame) tool = Some y_pred"
    and len: "length y_pred = length y_true"
    and two: "set y_true \<union> set y_pred = {0, 1}"
  shows "tool_statistics frame g y_true tool = Inr (tool_records g tool y_true y_pred)"
proof -
  have sub: "set y_true \<subseteq> {0, 1}" "set y_pred \<subseteq> {0, 1}" using two by auto
  note sums = binary_sums [OF len [symmetric] sub]
  have cm: "confusion_matrix y_true y_pred =
           Inr [[TN y_true y_pred, FP y_true y_pred], [FN y_true y_pred, TP y_true y_pred]]"
    by (rule confusion_matrix_binary [OF len two])
  have chk: "check_binary_targets y_true y_pred = Inr ()"
    by (rule check_binary_targets_binary [OF len two])
  have p: "precision_value y_true y_pred =
      prf_divide (TP y_true y_pred) (TP y_true y_pred + FP y_true y_pred)"
    using sums by (simp add: precision_value_def tp_sum_def TP_def)
  have r: "recall_value y_true y_pred =
      prf_divide (TP y_true y_pred) (TP y_true y_pred + FN y_true y_pred)"
    using sums by (simp add: recall_value_def tp_sum_def TP_def)
  show ?thesis
    unfolding tool_statistics_def
    by (simp add: dict_get_def col cm cm_get_def recall_score_def precision_score_def
        f1_score_def chk f1_value_def p r tool_records_def Let_def)
qed


lemma evaluate_tools_records:
  "(\<forall>t\<in>set ts. map_of (columns frame) t = Some (pred t)
        \<and> length (pred t) = length y_true \<and> set y_true \<union> set (pred t) = {0, 1}) \<Longrightarrow>
   evaluate_tools frame g y_true ts =
     Inr (concat (map (\<lambda>t. tool_records g t y_true (pred t)) ts))"
  by (induction ts) (simp_all add: tool_statistics_binary)

lemma evaluate_binary_classification_records:
  assumes "map_of (columns frame) ''CAZy'' = Some y_true"
    and "\<forall>t\<in>set tools. map_of (columns frame) t = Some (pred t)
        \<and> length (pred t) = length y_true \<and> set y_true \<union> set (pred t) = {0, 1}"
  shows "evaluate_binary_classification frame g =
     Inr (concat (map (\<lambda>t. tool_records g t y_true (pred t)) tools))"
  using assms
  by (simp add: evaluate_binary_classification_def dict_get_def evaluate_tools_records)

lemma length_concat_blocks:
  "(\<forall>x\<in>set xs. length (f x) = n) \<Longrightarrow> length (concat (map f xs)) = n * length xs"
  by (induction xs) simp_all

lemma nth_concat_blocks:
  "(\<forall>x\<in>set xs. length (f x) = n) \<Longrightarrow> j < length xs \<Longrightarrow> k < n \<Longrightarrow>
   concat (map f xs) ! (n * j + k) = f (xs ! j) ! k"
proof (induction xs arbitrary: j)
  case Nil
  then show ?case by simp
next
  case (Cons x xs)
  show ?case
  proof (cases j)
    case 0
    with Cons.prems show ?thesis by (simp add: nth_append)
  next
    case (Suc j')
    with Cons.prems have "concat (map f xs) ! (n * j' + k) = f (xs ! j') ! k"
      by (intro Cons.IH) simp_all
    moreover have "n * j + k = length (f x) + (n * j' + k)"
      using Cons.prems Suc by simp
    ultimately show ?thesis using Suc by (simp add: nth_append)
  qed
qed

lemma length_tool_records: "length (tool_records g t y_true y_pred) = 5"
  by (simp add: tool_records_def Let_def)

lemma records_nth:
  assumes "j < length tools" "k < 5"
  shows "concat (map (\<lambda>t. tool_records g t y_true (pred t)) tools) ! (5 * j + k)
         = tool_records g (tools ! j) y_true (pred (tools ! j)) ! k"
  using assms by (intro nth_concat_blocks) (simp_all add: length_tool_records)

lemma records_length:
  "length (concat (map (\<lambda>t. tool_records g t y_true (pred t)) tools)) = 5 * length tools"
  by (intro length_concat_blocks) (simp add: length_tool_records)

lemma uniform_frame_columns:
  "map_of (columns (uniform_frame accs y_pred y_true)) ''CAZy'' = Some y_true"
  "\<forall>t\<in>set tools. map_of (columns (uniform_frame accs y_pred y_true)) t = Some y_pred"
  by (simp_all add: uniform_frame_def tools_def)

text \<open>
  C1 (as the code has it). Let the matrix have the ground-truth column and a column of
  the same length for each of the six tools, all entries 0 or 1, such that for every
  tool both classes occur among the ground truth and the tool's predictions. Then the
  evaluator returns exactly five records per tool, in tool order and, for each tool, in
  the order Specificity, Recall, Precision, F1-score, Accuracy, each naming the genome
  and the tool. The accuracy is \<open>(TP + TN) / (TP + FP + FN + TN)\<close>, whose denominator is
  not zero; the specificity is \<open>TN / (TN + FP)\<close>, the recall \<open>TP / (TP + FN)\<close>, the
  precision \<open>TP / (TP + FP)\<close> and the F1 score
  \<open>2 * Precision * Recall / (Precision + Recall)\<close>, each when its denominator is not
  zero. (Values are exact rationals; the rounding of floats is not modelled.)
\<close>

theorem evaluate_binary_classification_formulas:
  assumes cazy: "map_of (columns frame) ''CAZy'' = Some y_true"
    and cols: "\<forall>t\<in>set tools. map_of (columns frame) t = Some (pred t)
        \<and> length (pred t) = length y_true \<and> set y_true \<union> set (pred t) = {0, 1}"
  shows "\<exists>rs. evaluate_binary_classification frame g = Inr rs
    \<and> length rs = 5 * length tools
    \<and> (\<forall>j<length tools.
         let tool = tools ! j;
             tp = TP y_true (pred tool); fp = FP y_true (pred tool);
             fn = FN y_true (pred tool); tn = TN y_true (pred tool);
             P = (of_nat tp / of_nat (tp + fp) :: rat);
             R = (of_nat tp / of_nat (tp + fn) :: rat)
         in \<exists>v1 v2 v3 v4 v5.
              rs ! (5 * j) = (''Specificity'', g, tool, v1)
            \<and> rs ! (5 * j + 1) = (''Recall'', g, tool, v2)
            \<and> rs ! (5 * j + 2) = (''Precision'', g, tool, v3)
            \<and> rs ! (5 * j + 3) = (''F1-score'', g, tool, v4)
            \<and> rs ! (5 * j + 4) = (''Accuracy'', g, tool, v5)
            \<and> (tn + fp \<noteq> 0 \<longrightarrow> v1 = Num (of_nat tn / of_nat (tn + fp)))
            \<and> (tp + fn \<noteq> 0 \<longrightarrow> v2 = Num R)
            \<and> (tp + fp \<noteq> 0 \<longrightarrow> v3 = Num P)
            \<and> (tp + fp \<noteq> 0 \<and> tp + fn \<noteq> 0 \<and> P + R \<noteq> 0 \<longrightarrow> v4 = Num (2 * P * R / (P + R)))
            \<and> tp + fp + fn + tn \<noteq> 0
            \<and> v5 = Num (of_nat (tp + tn) / of_nat (tp + fp + fn + tn)))"
proof -
  let ?rs = "concat (map (\<lambda>t. tool_records g t y_true (pred t)) tools)"
  have ev: "evaluate_binary_classification frame g = Inr ?rs"
    by (rule evaluate_binary_classification_records [OF cazy cols])
  have tot: "TP y_true (pred (tools ! j)) + FP y_true (pred (tools ! j))
           + FN y_true (pred (tools ! j)) + TN y_true (pred (tools ! j)) \<noteq> 0"
    if j: "j < length tools" for j
  proof -
    from j cols have len: "length (pred (tools ! j)) = length y_true"
      and two: "set y_true \<union> set (pred (tools ! j)) = {0, 1}"
      by (auto simp: all_set_conv_all_nth)
    then have "length y_true \<noteq> 0" by auto
    moreover have "set y_true \<subseteq> {0, 1}" "set (pred (tools ! j)) \<subseteq> {0, 1}" using two by auto
    from binary_sums [OF len [symmetric] this]
    have "length y_true = TP y_true (pred (tools ! j)) + FP y_true (pred (tools ! j))
           + FN y_true (pred (tools ! j)) + TN y_true (pred (tools ! j))" by simp
    ultimately show ?thesis by metis
  qed
  have nth: "?rs ! (5 * j) = tool_records g (tools ! j) y_true (pred (tools ! j)) ! 0"
    "?rs ! (5 * j + 1) = tool_records g (tools ! j) y_true (pred (tools ! j)) ! 1"
    "?rs ! (5 * j + 2) = tool_records g (tools ! j) y_true (pred (tools ! j)) ! 2"
    "?rs ! (5 * j + 3) = tool_records g (tools ! j) y_true (pred (tools ! j)) ! 3"
    "?rs ! (5 * j + 4) = tool_records g (tools ! j) y_true (pred (tools ! j)) ! 4"
    if j: "j < length tools" for j
    using records_nth [OF j, of 0 g y_true pred] records_nth [OF j, of 1 g y_true pred]
      records_nth [OF j, of 2 g y_true pred] records_nth [OF j, of 3 g y_true pred]
      records_nth [OF j, of 4 g y_true pred]
    by simp_all
  show ?thesis
  proof (intro exI conjI allI impI)
    show "evaluate_binary_classification frame g = Inr ?rs" by (rule ev)
    show "length ?rs = 5 * length tools" by (rule records_length)
    fix j assume j: "j < length tools"
    show "let tool = tools ! j;
             tp = TP y_true (pred tool); fp = FP y_true (pred tool);
             fn = FN y_true (pred tool); tn = TN y_true (pred tool);
             P = (of_nat tp / of_nat (tp + fp) :: rat);
             R = (of_nat tp / of_nat (tp + fn) :: rat)
         in \<exists>v1 v2 v3 v4 v5.
              ?rs ! (5 * j) = (''Specificity'', g, tool, v1)
            \<and> ?rs ! (5 * j + 1) = (''Recall'', g, tool, v2)
            \<and> ?rs ! (5 * j + 2) = (''Precision'', g, tool, v3)
            \<and> ?rs ! (5 * j + 3) = (''F1-score'', g, tool, v4)
            \<and> ?rs ! (5 * j + 4) = (''Accuracy'', g, tool, v5)
            \<and> (tn + fp \<noteq> 0 \<longrightarrow> v1 = Num (of_nat tn / of_nat (tn + fp)))
            \<and> (tp + fn \<noteq> 0 \<longrightarrow> v2 = Num R)
            \<and> (tp + fp \<noteq> 0 \<longrightarrow> v3 = Num P)
            \<and> (tp + fp \<noteq> 0 \<and> tp + fn \<noteq> 0 \<and> P + R \<noteq> 0 \<longrightarrow> v4 = Num (2 * P * R / (P + R)))
            \<and> tp + fp + fn + tn \<noteq> 0
            \<and> v5 = Num (of_nat (tp + tn) / of_nat (tp + fp + fn + tn))"
      unfolding Let_def nth [OF j]
      using tot [OF j]
      by (simp add: tool_records_def Let_def np_div_def prf_divide_def)
  qed
qed

theorem evaluate_binary_classification_formulas_witness:
  "map_of (columns (uniform_frame [''A'', ''B''] [1, 1] [1, 0])) ''CAZy'' = Some [1, 0]
   \<and> list_all (\<lambda>t. map_of (columns (uniform_frame [''A'', ''B''] [1, 1] [1, 0])) t = Some [1, 1]) tools
   \<and> (\<exists>rs. evaluate_binary_classification (uniform_frame [''A'', ''B''] [1, 1] [1, 0]) ''GCA_1'' = Inr rs
        \<and> length rs = 30
        \<and> take 5 rs = [(''Specificity'', ''GCA_1'', ''dbCAN'', Num 0),
            (''Recall'', ''GCA_1'', ''dbCAN'', Num 1),
            (''Precision'', ''GCA_1'', ''dbCAN'', Num (1 / 2)),
            (''F1-score'', ''GCA_1'', ''dbCAN'', Num (2 / 3)),
            (''Accuracy'', ''GCA_1'', ''dbCAN'', Num (1 / 2))])"
proof -
  let ?frame = "uniform_frame [''A'', ''B''] [1, 1] [1, 0]"
  have cazy: "map_of (columns ?frame) ''CAZy'' = Some [1, 0]"
    by (rule uniform_frame_columns)
  have cols0: "\<forall>t\<in>set tools. map_of (columns ?frame) t = Some [1, 1]"
    by (rule uniform_frame_columns)
  have cols: "\<forall>t\<in>set tools. map_of (columns ?frame) t = Some ((\<lambda>t. [1, 1]) t)
        \<and> length ((\<lambda>t. [1, 1 :: int]) t) = length [1, 0 :: int]
        \<and> set [1, 0 :: int] \<union> set ((\<lambda>t. [1, 1]) t) = {0, 1}"
    using cols0 by auto
  have cells: "TP [1, 0] [1, 1] = 1" "FP [1, 0] [1, 1] = 1" "FN [1, 0] [1, 1] = 0" "TN [1, 0] [1, 1] = 0"
    by (simp_all add: TP_def FP_def FN_def TN_def count_pairs_def)
  obtain rs where ev: "evaluate_binary_classification ?frame ''GCA_1'' = Inr rs"
    and len: "length rs = 5 * length tools"
    and all: "\<forall>j<length tools.
         let tool = tools ! j;
             tp = TP [1, 0] ((\<lambda>t. [1, 1]) tool); fp = FP [1, 0] ((\<lambda>t. [1, 1]) tool);
             fn = FN [1, 0] ((\<lambda>t. [1, 1]) tool); tn = TN [1, 0] ((\<lambda>t. [1, 1]) tool);
             P = (of_nat tp / of_nat (tp + fp) :: rat);
             R = (of_nat tp / of_nat (tp + fn) :: rat)
         in \<exists>v1 v2 v3 v4 v5.
              rs ! (5 * j) = (''Specificity'', ''GCA_1'', tool, v1)
            \<and> rs ! (5 * j + 1) = (''Recall'', ''GCA_1'', tool, v2)
            \<and> rs ! (5 * j + 2) = (''Precision'', ''GCA_1'', tool, v3)
            \<and> rs ! (5 * j + 3) = (''F1-score'', ''GCA_1'', tool, v4)
            \<and> rs ! (5 * j + 4) = (''Accuracy'', ''GCA_1'', tool, v5)
            \<and> (tn + fp \<noteq> 0 \<longrightarrow> v1 = Num (of_nat tn / of_nat (tn + fp)))
            \<and> (tp + fn \<noteq> 0 \<longrightarrow> v2 = Num R)
            \<and> (tp + fp \<noteq> 0 \<longrightarrow> v3 = Num P)
            \<and> (tp + fp \<noteq> 0 \<and> tp + fn \<noteq> 0 \<and> P + R \<noteq> 0 \<longrightarrow> v4 = Num (2 * P * R / (P + R)))
            \<and> tp + fp + fn + tn \<noteq> 0
            \<and> v5 = Num (of_nat (tp + tn) / of_nat (tp + fp + fn + tn))"
    using evaluate_binary_classification_formulas [OF cazy cols, of "''GCA_1''"] by blast
  have l30: "length rs = 30" using len by (simp add: tools_def)
  have "0 < length tools" by (simp add: tools_def)
  with all have first: "rs ! 0 = (''Specificity'', ''GCA_1'', ''dbCAN'', Num 0)
      \<and> rs ! 1 = (''Recall'', ''GCA_1'', ''dbCAN'', Num 1)
      \<and> rs ! 2 = (''Precision'', ''GCA_1'', ''dbCAN'', Num (1 / 2))
      \<and> rs ! 3 = (''F1-score'', ''GCA_1'', ''dbCAN'', Num (2 / 3))
      \<and> rs ! 4 = (''Accuracy'', ''GCA_1'', ''dbCAN'', Num (1 / 2))"
    by (auto simp: Let_def cells tools_def numeral_2_eq_2 dest!: spec [of _ 0])
  have "take 5 rs = [rs ! 0, rs ! 1, rs ! 2, rs ! 3, rs ! 4]"
    using l30 by (intro nth_equalityI) (auto simp: less_Suc_eq numeral_eq_Suc)
  with first have "take 5 rs = [(''Specificity'', ''GCA_1'', ''dbCAN'', Num 0),
            (''Recall'', ''GCA_1'', ''dbCAN'', Num 1),
            (''Precision'', ''GCA_1'', ''dbCAN'', Num (1 / 2)),
            (''F1-score'', ''GCA_1'', ''dbCAN'', Num (2 / 3)),
            (''Accuracy'', ''GCA_1'', ''dbCAN'', Num (1 / 2))]" by simp
  moreover from cols0
  have "list_all (\<lambda>t. map_of (columns ?frame) t = Some [1, 1]) tools"
    by (simp add: list_all_iff)
  ultimately show ?thesis using cazy ev l30 by blast
qed

text \<open>
  The claim as stated, for every classification matrix, fails in two ways. On a matrix
  of one row in which ground truth and predictions are all 0 the evaluator raises
  \<^verbatim>\<open>IndexError\<close> and returns no records. On a matrix without positives in the ground
  truth (\<open>TP + FN = 0\<close>) the recall that sklearn returns is 0, not a quotient by
  \<open>TP + FN\<close>, and so are the precision and the F1 score that depend on it.
\<close>

theorem evaluate_binary_classification_fails_or_substitutes:
  "evaluate_binary_classification (uniform_frame [''A''] [0] [0]) ''GCA_1'' = Inl IndexError
   \<and> TP [0, 0] [0, 1] + FN [0, 0] [0, 1] = 0
   \<and> evaluate_binary_classification (uniform_frame [''A'', ''B''] [0, 1] [0, 0]) ''GCA_1''
       = Inr (concat (map (\<lambda>t. [(''Specificity'', ''GCA_1'', t, Num (1 / 2)),
                                  (''Recall'', ''GCA_1'', t, Num 0),
                                  (''Precision'', ''GCA_1'', t, Num 0),
                                  (''F1-score'', ''GCA_1'', t, Num 0),
                                  (''Accuracy'', ''GCA_1'', t, Num (1 / 2))]) tools))"
  by code_simp

section \<open>Statistics with a zero denominator\<close>

text \<open>
  C5 (as the code has it). The evaluator has no check of the denominators and omits
  nothing. On a matrix as in C1, a statistic whose denominator is zero still has its
  record in the output, which keeps its five records per tool: the specificity is
  numpy's \<^verbatim>\<open>nan\<close> when \<open>TN + FP = 0\<close>; the recall is 0 when \<open>TP + FN = 0\<close>, the
  precision is 0 when \<open>TP + FP = 0\<close>, and the F1 score is 0 when \<open>TP = 0\<close> (sklearn's
  replacement value). The evaluation goes on to the following tools.
\<close>

theorem evaluate_binary_classification_zero_denominators:
  assumes cazy: "map_of (columns frame) ''CAZy'' = Some y_true"
    and cols: "\<forall>t\<in>set tools. map_of (columns frame) t = Some (pred t)
        \<and> length (pred t) = length y_true \<and> set y_true \<union> set (pred t) = {0, 1}"
  shows "\<exists>rs. evaluate_binary_classification frame g = Inr rs
    \<and> length rs = 5 * length tools
    \<and> (\<forall>j<length tools.
         let tool = tools ! j;
             tp = TP y_true (pred tool); fp = FP y_true (pred tool);
             fn = FN y_true (pred tool); tn = TN y_true (pred tool)
         in (tn + fp = 0 \<longrightarrow> rs ! (5 * j) = (''Specificity'', g, tool, NaN))
          \<and> (tp + fn = 0 \<longrightarrow> rs ! (5 * j + 1) = (''Recall'', g, tool, Num 0))
          \<and> (tp + fp = 0 \<longrightarrow> rs ! (5 * j + 2) = (''Precision'', g, tool, Num 0))
          \<and> (tp = 0 \<longrightarrow> rs ! (5 * j + 3) = (''F1-score'', g, tool, Num 0)))"
proof -
  let ?rs = "concat (map (\<lambda>t. tool_records g t y_true (pred t)) tools)"
  have ev: "evaluate_binary_classification frame g = Inr ?rs"
    by (rule evaluate_binary_classification_records [OF cazy cols])
  have nth: "?rs ! (5 * j) = tool_records g (tools ! j) y_true (pred (tools ! j)) ! 0"
    "?rs ! (5 * j + 1) = tool_records g (tools ! j) y_true (pred (tools ! j)) ! 1"
    "?rs ! (5 * j + 2) = tool_records g (tools ! j) y_true (pred (tools ! j)) ! 2"
    "?rs ! (5 * j + 3) = tool_records g (tools ! j) y_true (pred (tools ! j)) ! 3"
    if j: "j < length tools" for j
    using records_nth [OF j, of 0 g y_true pred] records_nth [OF j, of 1 g y_true pred]
      records_nth [OF j, of 2 g y_true pred] records_nth [OF j, of 3 g y_true pred]
    by simp_all
  show ?thesis
  proof (intro exI conjI allI impI)
    show "evaluate_binary_classification frame g = Inr ?rs" by (rule ev)
    show "length ?rs = 5 * length tools" by (rule records_length)
    fix j assume j: "j < length tools"
    show "let tool = tools ! j;
             tp = TP y_true (pred tool); fp = FP y_true (pred tool);
             fn = FN y_true (pred tool); tn = TN y_true (pred tool)
         in (tn + fp = 0 \<longrightarrow> ?rs ! (5 * j) = (''Specificity'', g, tool, NaN))
          \<and> (tp + fn = 0 \<longrightarrow> ?rs ! (5 * j + 1) = (''Recall'', g, tool, Num 0))
          \<and> (tp + fp = 0 \<longrightarrow> ?rs ! (5 * j + 2) = (''Precision'', g, tool, Num 0))
          \<and> (tp = 0 \<longrightarrow> ?rs ! (5 * j + 3) = (''F1-score'', g, tool, Num 0))"
      unfolding Let_def nth [OF j]
      by (simp add: tool_records_def Let_def np_div_def prf_divide_def)
  qed
qed

theorem evaluate_binary_classification_zero_denominators_witness:
  "(TN [1, 1] [0, 1] + FP [1, 1] [0, 1] = 0
    \<and> (\<exists>rs. evaluate_binary_classification (uniform_frame [''A'', ''B''] [0, 1] [1, 1]) ''GCA_1'' = Inr rs
          \<and> length rs = 30 \<and> rs ! 0 = (''Specificity'', ''GCA_1'', ''dbCAN'', NaN)))
   \<and> (TP [0, 0] [0, 1] + FN [0, 0] [0, 1] = 0
    \<and> (\<exists>rs. evaluate_binary_classification (uniform_frame [''A'', ''B''] [0, 1] [0, 0]) ''GCA_1'' = Inr rs
          \<and> length rs = 30 \<and> rs ! 1 = (''Recall'', ''GCA_1'', ''dbCAN'', Num 0)
          \<and> rs ! 3 = (''F1-score'', ''GCA_1'', ''dbCAN'', Num 0)))
   \<and> (TP [0, 1] [0, 0] + FP [0, 1] [0, 0] = 0
    \<and> (\<exists>rs. evaluate_binary_classification (uniform_frame [''A'', ''B''] [0, 0] [0, 1]) ''GCA_1'' = Inr rs
          \<and> length rs = 30 \<and> rs ! 2 = (''Precision'', ''GCA_1'', ''dbCAN'', Num 0)))"
proof -
  have t0: "0 < length tools" "tools ! 0 = ''dbCAN''" "5 * length tools = 30"
    by (simp_all add: tools_def)
  have inst: "\<exists>rs. evaluate_binary_classification (uniform_frame [''A'', ''B''] y_pred y_true) ''GCA_1'' = Inr rs
      \<and> length rs = 30
      \<and> (TN y_true y_pred + FP y_true y_pred = 0 \<longrightarrow> rs ! 0 = (''Specificity'', ''GCA_1'', ''dbCAN'', NaN))
      \<and> (TP y_true y_pred + FN y_true y_pred = 0 \<longrightarrow> rs ! 1 = (''Recall'', ''GCA_1'', ''dbCAN'', Num 0))
      \<and> (TP y_true y_pred + FP y_true y_pred = 0 \<longrightarrow> rs ! 2 = (''Precision'', ''GCA_1'', ''dbCAN'', Num 0))
      \<and> (TP y_true y_pred = 0 \<longrightarrow> rs ! 3 = (''F1-score'', ''GCA_1'', ''dbCAN'', Num 0))"
    if "length y_pred = length y_true" "set y_true \<union> set y_pred = {0, 1}" for y_true y_pred
  proof -
    let ?frame = "uniform_frame [''A'', ''B''] y_pred y_true"
    have cazy: "map_of (columns ?frame) ''CAZy'' = Some y_true"
      by (rule uniform_frame_columns)
    have cols: "\<forall>t\<in>set tools. map_of (columns ?frame) t = Some ((\<lambda>t. y_pred) t)
        \<and> length ((\<lambda>t. y_pred) t) = length y_true
        \<and> set y_true \<union> set ((\<lambda>t. y_pred) t) = {0, 1}"
      using uniform_frame_columns(2) [of "[''A'', ''B'']" y_pred y_true] that by simp
    from evaluate_binary_classification_zero_denominators [OF cazy cols, of "''GCA_1''"] t0
    show ?thesis
      by (auto simp: Let_def numeral_2_eq_2 dest!: spec [of _ 0])
  qed
  have c: "TN [1, 1] [0, 1] + FP [1, 1] [0, 1] = 0" "TP [0, 0] [0, 1] + FN [0, 0] [0, 1] = 0"
    "TP [0, 0] [0, 1] = 0" "TP [0, 1] [0, 0] + FP [0, 1] [0, 0] = 0"
    by (simp_all add: TP_def FP_def FN_def TN_def count_pairs_def)
  have s: "set [1, 1] \<union> set [0, 1] = {0, 1 :: int}" "set [0, 0] \<union> set [0, 1] = {0, 1 :: int}"
    "set [0, 1] \<union> set [0, 0] = {0, 1 :: int}"
    by auto
  have 1: "\<exists>rs. evaluate_binary_classification (uniform_frame [''A'', ''B''] [0, 1] [1, 1]) ''GCA_1'' = Inr rs
          \<and> length rs = 30 \<and> rs ! 0 = (''Specificity'', ''GCA_1'', ''dbCAN'', NaN)"
    using inst [of "[0, 1]" "[1, 1]"] c(1) s(1) by auto
  have 2: "\<exists>rs. evaluate_binary_classification (uniform_frame [''A'', ''B''] [0, 1] [0, 0]) ''GCA_1'' = Inr rs
          \<and> length rs = 30 \<and> rs ! 1 = (''Recall'', ''GCA_1'', ''dbCAN'', Num 0)
          \<and> rs ! 3 = (''F1-score'', ''GCA_1'', ''dbCAN'', Num 0)"
    using inst [of "[0, 1]" "[0, 0]"] c(2,3) s(2) by auto
  have 3: "\<exists>rs. evaluate_binary_classification (uniform_frame [''A'', ''B''] [0, 0] [0, 1]) ''GCA_1'' = Inr rs
          \<and> length rs = 30 \<and> rs ! 2 = (''Precision'', ''GCA_1'', ''dbCAN'', Num 0)"
    using inst [of "[0, 0]" "[0, 1]"] c(4) s(3) by auto
  from 1 2 3 c show ?thesis by (intro conjI)
qed

text \<open>
  The claim as stated fails on a matrix without negatives in the ground truth
  (\<open>TN + FP = 0\<close>): no entry is omitted, and the specificity record of every tool is
  present with the value \<^verbatim>\<open>nan\<close>.
\<close>

theorem evaluate_binary_classification_keeps_undefined:
  "TN [1, 1] [0, 1] + FP [1, 1] [0, 1] = 0
   \<and> evaluate_binary_classification (uniform_frame [''A'', ''B''] [0, 1] [1, 1]) ''GCA_1''
       = Inr (concat (map (\<lambda>t. [(''Specificity'', ''GCA_1'', t, NaN),
                                  (''Recall'', ''GCA_1'', t, Num (1 / 2)),
                                  (''Precision'', ''GCA_1'', t, Num 1),
                                  (''F1-score'', ''GCA_1'', t, Num (2 / 3)),
                                  (''Accuracy'', ''GCA_1'', t, Num (1 / 2))]) tools))"
  by code_simp

section \<open>Bootstrap samples\<close>

lemma randint_length: "length (fst (randint g n m)) = m"
  by (induction m arbitrary: g) (simp_all add: split_beta)

lemma randint_bound: "0 < n \<Longrightarrow> i \<in> set (fst (randint g n m)) \<Longrightarrow> i < n"
  by (induction m arbitrary: g) (auto simp: split_beta randbelow_def)

lemma resample_length: "length (fst (resample g df_array)) = length df_array"
  by (simp add: resample_def split_beta randint_length)

lemma resample_rows: "set (fst (resample g df_array)) \<subseteq> set df_array"
proof (cases "df_array = []")
  case True
  then show ?thesis by (simp add: resample_def)
next
  case False
  then have "0 < length df_array" by simp
  then have "i < length df_array"
    if "i \<in> set (fst (randint g (length df_array) (length df_array)))" for i
    using that by (rule randint_bound)
  then show ?thesis
    by (auto simp: resample_def split_beta)
qed

lemma length_bootstrap_samples: "length (bootstrap_samples g df_array n) = n"
  by (induction n arbitrary: g) (simp_all add: split_beta)

lemma bootstrap_samples_rows:
  "s \<in> set (bootstrap_samples g df_array n) \<Longrightarrow>
     length s = length df_array \<and> set s \<subseteq> set df_array"
proof (induction n arbitrary: g)
  case 0
  then show ?case by simp
next
  case (Suc n)
  then show ?case
    using resample_length [of g df_array] resample_rows [of g df_array]
    by (auto simp: split_beta)
qed

lemma bootstrap_loop_samples:
  "bootstrap_loop g df_array n = Inr (accs, g') \<Longrightarrow>
   map Inr accs = map (\<lambda>s. calc_acc (map snd s) (map fst s)) (bootstrap_samples g df_array n)"
  by (induction n arbitrary: g accs)
     (auto simp: split_beta bind_err_eq_Inr)

lemma bootstrap_loop_length:
  "bootstrap_loop g df_array n = Inr (accs, g') \<Longrightarrow> length accs = n"
  by (induction n arbitrary: g accs) (auto simp: split_beta bind_err_eq_Inr)

text \<open>
  C7. For every source array, every state of the generator and every resample count,
  \<^verbatim>\<open>bootstrap_acc\<close> draws as many samples as the count says (none for a count below 1);
  each sample has exactly as many rows as the source array, and each of its rows is a
  row of the source array (rows may repeat: the draw is with replacement). The
  accuracies that \<^verbatim>\<open>bootstrap_acc\<close> returns are those of these samples, in order.
\<close>

theorem bootstrap_resample_row_count:
  "length (bootstrap_samples g df_array (nat n)) = nat n
   \<and> (\<forall>s\<in>set (bootstrap_samples g df_array (nat n)).
         length s = length df_array \<and> set s \<subseteq> set df_array)
   \<and> (\<forall>accs g'. bootstrap_acc g df_array n = Inr (accs, g') \<longrightarrow>
         map Inr accs = map (\<lambda>s. calc_acc (map snd s) (map fst s))
                            (bootstrap_samples g df_array (nat n)))"
  using bootstrap_samples_rows [of _ g df_array "nat n"]
  by (auto simp: length_bootstrap_samples bootstrap_acc_def dest: bootstrap_loop_samples)

theorem bootstrap_resample_row_count_witness:
  "[(0, 1), (0, 1)]
     \<in> set (bootstrap_samples \<lparr>source = (\<lambda>i. 1), position = 0\<rparr>
              ([(1, 1), (0, 1)] :: (int \<times> int) list) (nat 2))
   \<and> list_all (\<lambda>s. length s = 2)
         (bootstrap_samples \<lparr>source = (\<lambda>i. 1), position = 0\<rparr>
            ([(1, 1), (0, 1)] :: (int \<times> int) list) (nat 2))
   \<and> (\<exists>g'. bootstrap_acc \<lparr>source = (\<lambda>i. i), position = 0\<rparr> [(1, 1), (0, 1)] 2
        = Inr ([Num (1 / 2), Num (1 / 2)], g'))
   \<and> map (\<lambda>s. calc_acc (map snd s) (map fst s))
          (bootstrap_samples \<lparr>source = (\<lambda>i. i), position = 0\<rparr> [(1, 1), (0, 1)] (nat 2))
        = [Inr (Num (1 / 2)), Inr (Num (1 / 2))]"
proof -
  let ?g = "\<lparr>source = (\<lambda>i. 1), position = 0\<rparr>"
  let ?h = "\<lparr>source = (\<lambda>i. i), position = 0\<rparr>"
  let ?arr = "[(1, 1), (0, 1 :: int)] :: (int \<times> int) list"
  have m: "[(0, 1), (0, 1)] \<in> set (bootstrap_samples ?g ?arr (nat 2))"
    by code_simp
  have "map_sum id fst (bootstrap_acc ?h ?arr 2) = Inr [Num (1 / 2), Num (1 / 2)]"
    by code_simp
  then obtain g' where e: "bootstrap_acc ?h ?arr 2 = Inr ([Num (1 / 2), Num (1 / 2)], g')"
    by (cases "bootstrap_acc ?h ?arr 2") auto
  have "\<forall>s\<in>set (bootstrap_samples ?g ?arr (nat 2)). length s = length ?arr \<and> set s \<subseteq> set ?arr"
    by (rule bootstrap_resample_row_count [of ?g ?arr 2, THEN conjunct2, THEN conjunct1])
  then have l: "list_all (\<lambda>s. length s = 2) (bootstrap_samples ?g ?arr (nat 2))"
    by (simp add: list_all_iff)
  have "\<forall>accs g'. bootstrap_acc ?h ?arr 2 = Inr (accs, g') \<longrightarrow>
         map Inr accs = map (\<lambda>s. calc_acc (map snd s) (map fst s))
                            (bootstrap_samples ?h ?arr (nat 2))"
    by (rule bootstrap_resample_row_count [of ?h ?arr 2, THEN conjunct2, THEN conjunct2])
  with e have "map Inr [Num (1 / 2), Num (1 / 2)] = map (\<lambda>s. calc_acc (map snd s) (map fst s))
                            (bootstrap_samples ?h ?arr (nat 2))"
    by (elim allE impE) assumption
  then have r: "map (\<lambda>s. calc_acc (map snd s) (map fst s)) (bootstrap_samples ?h ?arr (nat 2))
      = [Inr (Num (1 / 2)), Inr (Num (1 / 2))]" by simp
  from e have e': "\<exists>g'. bootstrap_acc ?h ?arr 2 = Inr ([Num (1 / 2), Num (1 / 2)], g')" ..
  from m l e' r show ?thesis by (intro conjI)
qed

section \<open>Drawing test sets and the bootstrap results\<close>

lemma pool_step:
  assumes "distinct pool" "j < length pool"
  shows "distinct (butlast (pool[j := last pool]))
       \<and> set (butlast (pool[j := last pool])) = set pool - {pool ! j}"
proof (cases pool rule: rev_cases)
  case Nil
  with assms show ?thesis by simp
next
  case (snoc xs l)
  show ?thesis
  proof (cases "j = length xs")
    case True
    with snoc assms show ?thesis by auto
  next
    case False
    with snoc assms have j: "j < length xs" by simp
    with snoc assms have "l \<noteq> xs ! j" by (auto simp: nth_append)
    with snoc assms j show ?thesis
      by (auto simp: list_update_append nth_append set_update_distinct distinct_list_update)
  qed
qed

lemma sample_pool_props:
  "distinct pool \<Longrightarrow> k \<le> length pool \<Longrightarrow>
   distinct (fst (sample_pool g pool k)) \<and> set (fst (sample_pool g pool k)) \<subseteq> set pool
   \<and> length (fst (sample_pool g pool k)) = k"
proof (induction k arbitrary: g pool)
  case 0
  then show ?case by simp
next
  case (Suc k)
  let ?j = "fst (randbelow g (length pool))"
  let ?g' = "snd (randbelow g (length pool))"
  let ?pool' = "butlast (pool[?j := last pool])"
  from Suc.prems have "0 < length pool" by (cases pool) auto
  then have j: "?j < length pool" by (simp add: randbelow_def)
  from pool_step [OF Suc.prems(1) j]
  have d: "distinct ?pool'" and s: "set ?pool' = set pool - {pool ! ?j}" by simp_all
  have "k \<le> length ?pool'" using Suc.prems by simp
  from Suc.IH [OF d this, of ?g'] s j show ?case
    by (auto simp: split_beta)
qed

lemma sample_pool_map:
  "k \<le> length pool \<Longrightarrow>
   fst (sample_pool g (map f pool) k) = map f (fst (sample_pool g pool k))"
proof (induction k arbitrary: g pool)
  case 0
  then show ?case by simp
next
  case (Suc k)
  let ?j = "fst (randbelow g (length pool))"
  let ?g' = "snd (randbelow g (length pool))"
  from Suc.prems have pos: "0 < length pool" by (cases pool) auto
  then have ne: "pool \<noteq> []" and j: "?j < length pool"
    by (simp_all add: randbelow_def)
  have "butlast ((map f pool)[?j := last (map f pool)]) = map f (butlast (pool[?j := last pool]))"
    using ne by (simp add: last_map map_update map_butlast)
  moreover have "k \<le> length (butlast (pool[?j := last pool]))" using Suc.prems by simp
  ultimately show ?case
    using Suc.IH [of "butlast (pool[?j := last pool])" ?g'] j
    by (simp add: split_beta)
qed

lemma random_sample_positions:
  assumes "random_sample g population k = Inr res"
  shows "0 \<le> k \<and> k \<le> int (length population)
       \<and> (\<exists>ps. distinct ps \<and> length ps = nat k \<and> (\<forall>p\<in>set ps. p < length population)
              \<and> res = map (\<lambda>p. population ! p) ps)"
proof -
  from assms have k: "0 \<le> k" "k \<le> int (length population)"
    and res: "res = fst (sample_pool g population (nat k))"
    by (auto simp: random_sample_def split: if_splits)
  let ?ps = "fst (sample_pool g [0..<length population] (nat k))"
  have le: "nat k \<le> length [0..<length population]" using k by simp
  from sample_pool_props [OF distinct_upt le, of g]
  have p: "distinct ?ps" "set ?ps \<subseteq> set [0..<length population]" "length ?ps = nat k"
    by simp_all
  have "res = fst (sample_pool g (map (\<lambda>p. population ! p) [0..<length population]) (nat k))"
    by (simp add: res map_nth)
  also have "\<dots> = map (\<lambda>p. population ! p) ?ps"
    by (rule sample_pool_map [OF le])
  finally have "res = map (\<lambda>p. population ! p) ?ps" .
  with p k show ?thesis by (intro conjI exI [of _ ?ps]) auto
qed

lemma bootstrap_acc_length:
  "bootstrap_acc g df_array n = Inr (accs, g') \<Longrightarrow> length accs = nat n"
  by (simp add: bootstrap_acc_def bootstrap_loop_length)

lemma numbered_keys:
  "length accs = m \<Longrightarrow>
   map result_key (map (\<lambda>(bs_number, result). (gid, tool, bs_number, result))
                       (zip [1..<Suc (length accs)] accs))
   = map (\<lambda>i. (gid, tool, i)) [1..<Suc m]"
  by (rule nth_equalityI) (simp_all add: result_key_def del: upt_Suc)

lemma bootstrap_dfs_keys:
  "bootstrap_dfs g tool n ds = Inr (res, g') \<Longrightarrow>
   map result_key res =
     concat (map (\<lambda>d. map (\<lambda>i. (genome_id d, tool, i)) [1..<Suc (nat n)]) ds)"
proof (induction ds arbitrary: g res g')
  case Nil
  then show ?case by simp
next
  case (Cons d ds)
  from Cons.prems obtain predicted truth bs_acc g1 more g2
    where acc: "bootstrap_acc g (zip predicted truth) n = Inr (bs_acc, g1)"
      and rest: "bootstrap_dfs g1 tool n ds = Inr (more, g2)"
      and res: "res = map (\<lambda>(bs_number, result). (genome_id d, tool, bs_number, result))
                (zip [1..<Suc (length bs_acc)] bs_acc) @ more"
    by (auto simp: bind_err_eq_Inr)
  from acc have "length bs_acc = nat n" by (rule bootstrap_acc_length)
  from numbered_keys [OF this] Cons.IH [OF rest] show ?case
    by (simp add: res)
qed

lemma bootstrap_tools_keys:
  "bootstrap_tools g n ds ts = Inr (res, g') \<Longrightarrow>
   map result_key res =
     concat (map (\<lambda>tool. concat (map (\<lambda>d. map (\<lambda>i. (genome_id d, tool, i)) [1..<Suc (nat n)]) ds)) ts)"
proof (induction ts arbitrary: g res g')
  case Nil
  then show ?case by simp
next
  case (Cons t ts)
  from Cons.prems obtain results g1 more g2
    where one: "bootstrap_dfs g t n ds = Inr (results, g1)"
      and rest: "bootstrap_tools g1 n ds ts = Inr (more, g2)"
      and res: "res = results @ more"
    by (auto simp: bind_err_eq_Inr)
  from bootstrap_dfs_keys [OF one] Cons.IH [OF rest] show ?case
    by (simp add: res)
qed

text \<open>
  C8 (as the code has it). Whenever \<^verbatim>\<open>bootstrap_binary_classifications\<close> completes,
  the sample size \<open>k\<close> lies between 0 and the number of test sets, the \<open>k\<close> drawn test
  sets stand at pairwise distinct positions of the collection (none is drawn twice),
  and the result holds exactly \<open>6 * k * n\<close> entries (none for \<open>n\<close> below 1): for each
  tool in column order, for each drawn test set in the order of the draw, one entry
  \<open>(test set, tool, resample number, accuracy)\<close> for each resample number from 1 to
  \<open>n\<close>. That the draw is uniform is a property of the generator and is not expressed
  here.
\<close>

theorem bootstrap_binary_classifications_results:
  "bootstrap_binary_classifications py_random np_random all_binary_dfs k n = Inr res \<longrightarrow>
     0 \<le> k \<and> k \<le> int (length all_binary_dfs)
     \<and> (\<exists>ps. distinct ps \<and> length ps = nat k \<and> (\<forall>p\<in>set ps. p < length all_binary_dfs)
          \<and> map result_key res =
              concat (map (\<lambda>tool. concat (map (\<lambda>p.
                  map (\<lambda>i. (genome_id (all_binary_dfs ! p), tool, i)) [1..<Suc (nat n)]) ps)) tools))
     \<and> length res = 6 * nat k * nat n"
proof
  assume "bootstrap_binary_classifications py_random np_random all_binary_dfs k n = Inr res"
  then obtain binary_dfs g' where
      smp: "random_sample py_random all_binary_dfs k = Inr binary_dfs"
      and run: "bootstrap_tools np_random n binary_dfs tools = Inr (res, g')"
    by (auto simp: bootstrap_binary_classifications_def bind_err_eq_Inr)
  from random_sample_positions [OF smp] obtain ps where
      k: "0 \<le> k" "k \<le> int (length all_binary_dfs)"
      and ps: "distinct ps" "length ps = nat k" "\<forall>p\<in>set ps. p < length all_binary_dfs"
      and dfs: "binary_dfs = map (\<lambda>p. all_binary_dfs ! p) ps"
    by blast
  have keys: "map result_key res =
      concat (map (\<lambda>tool. concat (map (\<lambda>p.
                  map (\<lambda>i. (genome_id (all_binary_dfs ! p), tool, i)) [1..<Suc (nat n)]) ps)) tools)"
    using bootstrap_tools_keys [OF run] by (simp add: dfs comp_def)
  have "length res = length (map result_key res)" by simp
  also have "\<dots> = (nat n * length ps) * length tools"
    unfolding keys
    by (intro length_concat_blocks ballI) (simp add: length_concat_blocks)
  finally have "length res = 6 * nat k * nat n" by (simp add: ps tools_def)
  with k ps keys show "0 \<le> k \<and> k \<le> int (length all_binary_dfs)
     \<and> (\<exists>ps. distinct ps \<and> length ps = nat k \<and> (\<forall>p\<in>set ps. p < length all_binary_dfs)
          \<and> map result_key res =
              concat (map (\<lambda>tool. concat (map (\<lambda>p.
                  map (\<lambda>i. (genome_id (all_binary_dfs ! p), tool, i)) [1..<Suc (nat n)]) ps)) tools))
     \<and> length res = 6 * nat k * nat n"
    by blast
qed

theorem bootstrap_binary_classifications_results_witness:
  "bootstrap_binary_classifications counting_rng counting_rng two_test_sets 1 2 =
     Inr (concat (map (\<lambda>t. [(''GCA_1'', t, 1, Num (1 / 2)), (''GCA_1'', t, 2, Num (1 / 2))]) tools))
   \<and> length (concat (map (\<lambda>t. [(''GCA_1'', t, 1 :: nat, Num (1 / 2)),
                                 (''GCA_1'', t, 2, Num (1 / 2))]) tools)) = 6 * nat 1 * nat 2
   \<and> (\<exists>ps. distinct ps \<and> length ps = nat 1 \<and> list_all (\<lambda>p. p < length two_test_sets) ps
          \<and> map result_key (concat (map (\<lambda>t. [(''GCA_1'', t, 1, Num (1 / 2)),
                                                 (''GCA_1'', t, 2, Num (1 / 2))]) tools)) =
              concat (map (\<lambda>tool. concat (map (\<lambda>p.
                  map (\<lambda>i. (genome_id (two_test_sets ! p), tool, i)) [1..<Suc (nat 2)]) ps)) tools))"
proof -
  have ev: "bootstrap_binary_classifications counting_rng counting_rng two_test_sets 1 2 =
     Inr (concat (map (\<lambda>t. [(''GCA_1'', t, 1, Num (1 / 2)), (''GCA_1'', t, 2, Num (1 / 2))]) tools))"
    by code_simp
  from bootstrap_binary_classifications_results
         [of counting_rng counting_rng two_test_sets 1 2, THEN mp, OF ev] ev
  show ?thesis unfolding list_all_iff by blast
qed

text \<open>
  The claim as stated, for every collection, \<open>k\<close> and \<open>n\<close>, fails: with \<open>k = 1\<close> and
  an empty collection \<^verbatim>\<open>random.sample\<close> raises \<^verbatim>\<open>ValueError\<close>, and with a test set
  whose only protein every tool and the ground truth call a CAZyme the accuracy of
  the first resample raises \<^verbatim>\<open>IndexError\<close>; in both cases no result sequence is
  produced, where the claim has one of \<open>k * 6 * n = 6\<close> entries.
\<close>

theorem bootstrap_binary_classifications_raises:
  "bootstrap_binary_classifications counting_rng counting_rng [] 1 1 = Inl ValueError
   \<and> bootstrap_binary_classifications counting_rng counting_rng
        [\<lparr>genome_id = ''GCA_1'', df = uniform_frame [''A''] [1] [1]\<rparr>] 1 1 = Inl IndexError"
  by code_simp

section \<open>Sample size and resample count\<close>

lemma bootstrap_dfs_no_resampling:
  "n \<le> 0 \<Longrightarrow> tool \<in> set tools \<Longrightarrow>
   (\<forall>d\<in>set ds. \<forall>c\<in>set (''CAZy'' # tools). map_of (columns (df d)) c \<noteq> None) \<Longrightarrow>
   bootstrap_dfs g tool n ds = Inr ([], g)"
  by (induction ds) (auto simp: dict_get_def bootstrap_acc_def split: option.splits)

lemma bootstrap_tools_no_resampling:
  "n \<le> 0 \<Longrightarrow> set ts \<subseteq> set tools \<Longrightarrow>
   (\<forall>d\<in>set ds. \<forall>c\<in>set (''CAZy'' # tools). map_of (columns (df d)) c \<noteq> None) \<Longrightarrow>
   bootstrap_tools g n ds ts = Inr ([], g)"
  by (induction ts) (simp_all add: bootstrap_dfs_no_resampling)

lemma bootstrap_dfs_none: "bootstrap_tools g n [] ts = Inr ([], g)"
  by (induction ts) simp_all

text \<open>
  C9 (as the code has it). \<^verbatim>\<open>bootstrap_binary_classifications\<close> validates neither
  \<open>k\<close> nor \<open>n\<close> itself. A negative \<open>k\<close> and a \<open>k\<close> greater than the number of test
  sets are refused by \<^verbatim>\<open>random.sample\<close> with \<^verbatim>\<open>ValueError\<close>, before any test set is
  drawn or resampled. \<open>k = 0\<close> is accepted and gives an empty result; so does every
  \<open>n \<le> 0\<close> with a \<open>k\<close> in range, when the matrices have their seven columns.
\<close>

theorem bootstrap_binary_classifications_configuration:
  "(k < 0 \<or> int (length all_binary_dfs) < k \<longrightarrow>
      bootstrap_binary_classifications py_random np_random all_binary_dfs k n = Inl ValueError)
   \<and> (k = 0 \<longrightarrow>
      bootstrap_binary_classifications py_random np_random all_binary_dfs k n = Inr [])
   \<and> (0 \<le> k \<and> k \<le> int (length all_binary_dfs) \<and> n \<le> 0
       \<and> (\<forall>d\<in>set all_binary_dfs. \<forall>c\<in>set (''CAZy'' # tools). map_of (columns (df d)) c \<noteq> None)
      \<longrightarrow> bootstrap_binary_classifications py_random np_random all_binary_dfs k n = Inr [])"
proof (intro conjI impI)
  assume "k < 0 \<or> int (length all_binary_dfs) < k"
  then show "bootstrap_binary_classifications py_random np_random all_binary_dfs k n = Inl ValueError"
    by (auto simp: bootstrap_binary_classifications_def random_sample_def)
next
  assume "k = 0"
  then show "bootstrap_binary_classifications py_random np_random all_binary_dfs k n = Inr []"
    by (simp add: bootstrap_binary_classifications_def random_sample_def bootstrap_dfs_none)
next
  assume h: "0 \<le> k \<and> k \<le> int (length all_binary_dfs) \<and> n \<le> 0
       \<and> (\<forall>d\<in>set all_binary_dfs. \<forall>c\<in>set (''CAZy'' # tools). map_of (columns (df d)) c \<noteq> None)"
  then obtain binary_dfs where smp: "random_sample py_random all_binary_dfs k = Inr binary_dfs"
    by (simp add: random_sample_def)
  from random_sample_positions [OF smp] have "set binary_dfs \<subseteq> set all_binary_dfs"
    by auto
  with h have "\<forall>d\<in>set binary_dfs. \<forall>c\<in>set (''CAZy'' # tools). map_of (columns (df d)) c \<noteq> None"
    by blast
  with h have "bootstrap_tools np_random n binary_dfs tools = Inr ([], np_random)"
    by (intro bootstrap_tools_no_resampling) simp_all
  with smp show "bootstrap_binary_classifications py_random np_random all_binary_dfs k n = Inr []"
    by (simp add: bootstrap_binary_classifications_def)
qed

theorem bootstrap_binary_classifications_configuration_witness:
  "bootstrap_binary_classifications counting_rng counting_rng two_test_sets 3 10 = Inl ValueError
   \<and> bootstrap_binary_classifications counting_rng counting_rng two_test_sets (- 1) 10 = Inl ValueError
   \<and> bootstrap_binary_classifications counting_rng counting_rng two_test_sets 0 10 = Inr []
   \<and> list_all (\<lambda>d. list_all (\<lambda>c. map_of (columns (df d)) c \<noteq> None) (''CAZy'' # tools))
         two_test_sets
   \<and> bootstrap_binary_classifications counting_rng counting_rng two_test_sets 2 0 = Inr []"
proof -
  have cols: "\<forall>d\<in>set two_test_sets. \<forall>c\<in>set (''CAZy'' # tools). map_of (columns (df d)) c \<noteq> None"
    by (simp add: two_test_sets_def uniform_frame_def tools_def)
  have l: "length two_test_sets = 2" by (simp add: two_test_sets_def)
  have 1: "bootstrap_binary_classifications counting_rng counting_rng two_test_sets 3 10 = Inl ValueError"
    using bootstrap_binary_classifications_configuration
            [of 3 two_test_sets counting_rng counting_rng 10] l by simp
  have 2: "bootstrap_binary_classifications counting_rng counting_rng two_test_sets (- 1) 10 = Inl ValueError"
    using bootstrap_binary_classifications_configuration
            [of "- 1" two_test_sets counting_rng counting_rng 10] by simp
  have 3: "bootstrap_binary_classifications counting_rng counting_rng two_test_sets 0 10 = Inr []"
    using bootstrap_binary_classifications_configuration
            [of 0 two_test_sets counting_rng counting_rng 10] by simp
  have 4: "bootstrap_binary_classifications counting_rng counting_rng two_test_sets 2 0 = Inr []"
    using bootstrap_binary_classifications_configuration
            [of 2 two_test_sets counting_rng counting_rng 0] l cols by simp
  from cols have "list_all (\<lambda>d. list_all (\<lambda>c. map_of (columns (df d)) c \<noteq> None) (''CAZy'' # tools))
         two_test_sets"
    by (simp add: list_all_iff)
  with 1 2 3 4 show ?thesis by (intro conjI)
qed

text \<open>
  The claim as stated fails: the non-positive values \<open>k = 0\<close>, \<open>n = 0\<close> and \<open>n = -3\<close>
  raise nothing and give an empty result.
\<close>

theorem bootstrap_binary_classifications_accepts_non_positive:
  "bootstrap_binary_classifications counting_rng counting_rng two_test_sets 0 5 = Inr []
   \<and> bootstrap_binary_classifications counting_rng counting_rng two_test_sets 1 0 = Inr []
   \<and> bootstrap_binary_classifications counting_rng counting_rng two_test_sets 1 (- 3) = Inr []"
  by code_simp

section \<open>Accuracy on a sample with both classes\<close>

text \<open>
  Where both classes occur among the predictions and the ground truth of a sample,
  the confusion matrix is 2x2 and the accuracy is a number between 0 and 1.
\<close>

lemma calc_acc_two_classes:
  assumes "length y_pred = length y_true" "set y_true \<union> set y_pred = {0, 1}"
  shows "\<exists>a. calc_acc y_true y_pred = Inr (Num a) \<and> 0 \<le> a \<and> a \<le> 1
     \<and> a = of_nat (TP y_true y_pred + TN y_true y_pred)
           / of_nat (TP y_true y_pred + FP y_true y_pred + FN y_true y_pred + TN y_true y_pred)"
proof -
  have sub: "set y_true \<subseteq> {0, 1}" "set y_pred \<subseteq> {0, 1}" using assms(2) by auto
  from assms have "length y_true \<noteq> 0" by auto
  with binary_sums [OF assms(1) [symmetric] sub]
  have tot: "TP y_true y_pred + FP y_true y_pred + FN y_true y_pred + TN y_true y_pred \<noteq> 0"
    by metis
  have "calc_acc y_true y_pred = Inr (np_div (TP y_true y_pred + TN y_true y_pred)
          (TP y_true y_pred + FP y_true y_pred + FN y_true y_pred + TN y_true y_pred))"
    by (simp add: calc_acc_def confusion_matrix_binary [OF assms] cm_get_def)
  with tot show ?thesis
    by (simp add: np_div_def divide_le_eq_1 del: of_nat_add)
qed

end
